theory Spec2Isabelle
  imports Complex_Main "HOL-Library.Word"
begin

section \<open>Data model\<close>

text \<open>
  Python \<open>bytes\<close> are sequences of octets. Python's \<open>str\<close> is modelled by \<open>string\<close>;
  the only character the adapters inspect is the ASCII separator \<open>:\<close>, and the only
  strings they build are decimal numerals. Python's \<open>int\<close> is \<open>int\<close>. The timeout is a
  Python \<open>float\<close> that is only passed on, never computed with; it is a \<open>real\<close> here.
\<close>

type_synonym bytes = "8 word list"

text \<open>Values of type \<open>Any\<close>: keyword arguments, decoded JSON, validated requests.\<close>

datatype py_value =
    PyNone
  | PyStr string
  | PyInt int
  | PyBytes bytes
  | PyDict "(string \<times> py_value) list"

type_synonym kwargs = "(string \<times> py_value) list"

text \<open>\<open>synapse/models/response.py\<close>\<close>

record message =
  data :: bytes

record received_message =
  message :: message
  ack_id :: string

record pull_response =
  received_messages :: "received_message list"

record publish_future =
  message_id :: string

definition result :: "publish_future \<Rightarrow> string" where
  "result f = message_id f"

text \<open>
  \<open>models/request.py\<close>: the two \<open>TypedDict\<close> request shapes. Both have a key
  \<open>subscription\<close>; field names are global in a theory, so the second one is prefixed.
\<close>

record pull_request =
  subscription :: string
  max_messages :: int

record acknowledge_request =
  ack_subscription :: string
  ack_ids :: "string list"

section \<open>The broker channel\<close>

text \<open>
  The adapters talk to a \<open>pika\<close> \<open>BlockingChannel\<close>, a library outside the repository.
  A channel is modelled by the sequence of calls the adapter has issued on it, oldest
  first, and every call returns normally: a transport failure would leave the adapter
  through an exception of the library and is not part of this model. What the broker
  yields in answer to \<open>consume\<close> is an argument of \<open>pull\<close>.

  \<open>pika.BasicProperties\<close> has only \<open>None\<close> defaults; the two fields kept here are the one
  the publisher sets and the one that would carry message attributes.
\<close>

record basic_properties =
  delivery_mode :: "int option"
  headers :: "(string \<times> py_value) list option"

definition BasicProperties :: "int \<Rightarrow> basic_properties" where
  "BasicProperties dm = \<lparr>delivery_mode = Some dm, headers = None\<rparr>"

datatype broker_call =
    Consume string bool real
  | Cancel
  | BasicAck int
  | BasicPublish string string bytes basic_properties

type_synonym channel = "broker_call list"

definition consume :: "string \<Rightarrow> bool \<Rightarrow> real \<Rightarrow> channel \<Rightarrow> channel" where
  "consume queue auto_ack inactivity_timeout ch = ch @ [Consume queue auto_ack inactivity_timeout]"

definition cancel :: "channel \<Rightarrow> channel" where
  "cancel ch = ch @ [Cancel]"

definition basic_ack :: "int \<Rightarrow> channel \<Rightarrow> channel" where
  "basic_ack tag ch = ch @ [BasicAck tag]"

definition basic_publish :: "string \<Rightarrow> string \<Rightarrow> bytes \<Rightarrow> basic_properties \<Rightarrow> channel \<Rightarrow> channel" where
  "basic_publish exchange routing_key body properties ch =
     ch @ [BasicPublish exchange routing_key body properties]"

text \<open>
  \<open>consume\<close> yields triples \<open>(method, properties, body)\<close>, and \<open>(None, None, None)\<close> when
  the inactivity timeout passes. The adapter reads \<open>method\<close>, \<open>method.delivery_tag\<close> and
  \<open>body\<close> only, and \<open>body\<close> only when \<open>method\<close> is not \<open>None\<close>. A method frame
  of a delivery is a \<open>Basic.Deliver\<close>.
\<close>

datatype deliver = Deliver (delivery_tag: int)

type_synonym consume_item = "deliver option \<times> bytes"

section \<open>The publisher adapter\<close>

text \<open>
  \<open>adapters/rabbitmq/publisher.py\<close>. \<open>topic.split(":", 1)\<close> on a topic that contains
  the separator gives the text before the first \<open>:\<close> and everything after it.
\<close>

definition split_colon_1 :: "string \<Rightarrow> string \<times> string" where
  "split_colon_1 topic =
     (takeWhile (\<lambda>c. c \<noteq> CHR '':'') topic, tl (dropWhile (\<lambda>c. c \<noteq> CHR '':'') topic))"

record rabbitmq_publisher =
  pub_channel :: channel

definition new_publisher :: rabbitmq_publisher where
  "new_publisher = \<lparr>pub_channel = []\<rparr>"

definition publish :: "string \<Rightarrow> bytes \<Rightarrow> kwargs \<Rightarrow> rabbitmq_publisher
    \<Rightarrow> publish_future \<times> rabbitmq_publisher" where
  "publish topic body kwargs self =
     (let (exchange, routing_key) =
            (if CHR '':'' \<in> set topic then split_colon_1 topic else ('''', topic))
      in (\<lparr>message_id = ''''\<rparr>,
          self\<lparr>pub_channel :=
            basic_publish exchange routing_key body (BasicProperties 2) (pub_channel self)\<rparr>))"

section \<open>The subscriber adapter\<close>

text \<open>
  \<open>adapters/rabbitmq/subscriber.py\<close>. Python's \<open>str\<close> on an \<open>int\<close> gives the decimal
  digits, with a leading \<open>-\<close> below zero.
\<close>

definition digit_char :: "nat \<Rightarrow> char" where
  "digit_char d = ''0123456789'' ! d"

fun str_nat :: "nat \<Rightarrow> string" where
  "str_nat n = (if n < 10 then [digit_char n] else str_nat (n div 10) @ [digit_char (n mod 10)])"

declare str_nat.simps [simp del]

definition str :: "int \<Rightarrow> string" where
  "str i = (if i < 0 then CHR ''-'' # str_nat (nat (- i)) else str_nat (nat i))"

record rabbitmq_subscriber =
  sub_channel :: channel
  pending_acks :: "string \<rightharpoonup> int"

definition new_subscriber :: rabbitmq_subscriber where
  "new_subscriber = \<lparr>sub_channel = [], pending_acks = Map.empty\<rparr>"

text \<open>
  The \<open>for\<close> loop of \<open>pull\<close> over the consume stream. Both branches of its body end in
  \<open>break\<close>, so no equation recurses; a stream that ends at once leaves the loop too.
\<close>

fun pull_loop :: "consume_item list \<Rightarrow> (string \<rightharpoonup> int) \<times> received_message list
    \<Rightarrow> (string \<rightharpoonup> int) \<times> received_message list" where
  "pull_loop [] (acks, received) = (acks, received)"
| "pull_loop ((None, body) # rest) (acks, received) = (acks, received)"
| "pull_loop ((Some method, body) # rest) (acks, received) =
     (let aid = str (delivery_tag method)
      in (acks(aid \<mapsto> delivery_tag method),
          received @ [\<lparr>message = \<lparr>data = body\<rparr>, ack_id = aid\<rparr>]))"

definition pull :: "pull_request \<Rightarrow> real \<Rightarrow> consume_item list \<Rightarrow> rabbitmq_subscriber
    \<Rightarrow> pull_response \<times> rabbitmq_subscriber" where
  "pull request timeout deliveries self =
     (let queue = subscription request;
          ch1 = consume queue False timeout (sub_channel self);
          (acks, received) = pull_loop deliveries (pending_acks self, []);
          ch2 = cancel ch1
      in (\<lparr>received_messages = received\<rparr>, \<lparr>sub_channel = ch2, pending_acks = acks\<rparr>))"

text \<open>
  \<open>self._pending_acks.pop(ack_id, None)\<close> removes the key and returns its value, or
  returns \<open>None\<close> and changes nothing when the key is absent.
\<close>

fun acknowledge_loop :: "string list \<Rightarrow> rabbitmq_subscriber \<Rightarrow> rabbitmq_subscriber" where
  "acknowledge_loop [] self = self"
| "acknowledge_loop (aid # rest) self =
     (let popped = pending_acks self aid;
          self1 = self\<lparr>pending_acks := (pending_acks self)(aid := None)\<rparr>
      in case popped of
           None \<Rightarrow> acknowledge_loop rest self1
         | Some tag \<Rightarrow> acknowledge_loop rest (self1\<lparr>sub_channel := basic_ack tag (sub_channel self1)\<rparr>))"

definition acknowledge :: "acknowledge_request \<Rightarrow> rabbitmq_subscriber \<Rightarrow> rabbitmq_subscriber" where
  "acknowledge request self = acknowledge_loop (ack_ids request) self"

section \<open>The consumer loop\<close>

text \<open>
  \<open>consumer/message_consumer.py\<close> and \<open>consumer/async_message_consumer.py\<close>.

  The subscriber, the handler, the request model and \<open>json.loads\<close> are collaborators
  outside the consumer. A raised exception is the \<open>Inl\<close> of a result. The subscriber and
  the handler act on the consumer object and an outside world \<open>'w\<close>: the repository's
  tests stop the consumer from inside \<open>pull\<close>, and in the asynchronous variant whatever
  other tasks do while the consumer awaits a call is part of that call's effect.
\<close>

datatype exn = Exception string

record 'w message_consumer =
  consumer_subscription :: string
  running :: bool
  world :: 'w

record 'w collaborators =
  subscriber_pull :: "pull_request \<Rightarrow> real \<Rightarrow> 'w message_consumer
      \<Rightarrow> (exn + pull_response) \<times> 'w message_consumer"
  subscriber_acknowledge :: "acknowledge_request \<Rightarrow> 'w message_consumer
      \<Rightarrow> (exn + unit) \<times> 'w message_consumer"
  json_loads :: "bytes \<Rightarrow> exn + py_value"
  request_model :: "py_value \<Rightarrow> exn + py_value"
  handler_handle :: "py_value \<Rightarrow> 'w message_consumer \<Rightarrow> (exn + unit) \<times> 'w message_consumer"

text \<open>
  What the consumer does is observed through a journal of the calls it makes, in order.
  The journal is kept beside the consumer object, where no collaborator can reach it.
\<close>

datatype call =
    is_WhileTest: WhileTest bool
  | ProcessOneMessage
  | PullCall pull_request real
  | LoadsCall bytes
  | ModelCall py_value
  | HandleCall py_value
  | AcknowledgeCall acknowledge_request

record 'w execution =
  consumer :: "'w message_consumer"
  calls :: "call list"

definition log_call :: "call \<Rightarrow> 'w execution \<Rightarrow> 'w execution" where
  "log_call c st = st\<lparr>calls := calls st @ [c]\<rparr>"

definition call_pull :: "'w collaborators \<Rightarrow> pull_request \<Rightarrow> real \<Rightarrow> 'w execution
    \<Rightarrow> (exn + pull_response) \<times> 'w execution" where
  "call_pull env request timeout st =
     (case subscriber_pull env request timeout (consumer st) of
        (r, c) \<Rightarrow> (r, log_call (PullCall request timeout) (st\<lparr>consumer := c\<rparr>)))"

definition call_acknowledge :: "'w collaborators \<Rightarrow> acknowledge_request \<Rightarrow> 'w execution
    \<Rightarrow> (exn + unit) \<times> 'w execution" where
  "call_acknowledge env request st =
     (case subscriber_acknowledge env request (consumer st) of
        (r, c) \<Rightarrow> (r, log_call (AcknowledgeCall request) (st\<lparr>consumer := c\<rparr>)))"

definition call_loads :: "'w collaborators \<Rightarrow> bytes \<Rightarrow> 'w execution
    \<Rightarrow> (exn + py_value) \<times> 'w execution" where
  "call_loads env b st = (json_loads env b, log_call (LoadsCall b) st)"

definition call_model :: "'w collaborators \<Rightarrow> py_value \<Rightarrow> 'w execution
    \<Rightarrow> (exn + py_value) \<times> 'w execution" where
  "call_model env message_data st =
     (request_model env message_data, log_call (ModelCall message_data) st)"

definition call_handle :: "'w collaborators \<Rightarrow> py_value \<Rightarrow> 'w execution
    \<Rightarrow> (exn + unit) \<times> 'w execution" where
  "call_handle env request st =
     (case handler_handle env request (consumer st) of
        (r, c) \<Rightarrow> (r, log_call (HandleCall request) (st\<lparr>consumer := c\<rparr>)))"

text \<open>\<open>__init__\<close>, \<open>start\<close> and \<open>stop\<close>.\<close>

definition new_consumer :: "string \<Rightarrow> 'w \<Rightarrow> 'w message_consumer" where
  "new_consumer sub w = \<lparr>consumer_subscription = sub, running = False, world = w\<rparr>"

definition start :: "'w message_consumer \<Rightarrow> 'w message_consumer" where
  "start self = self\<lparr>running := True\<rparr>"

definition stop :: "'w message_consumer \<Rightarrow> 'w message_consumer" where
  "stop self = self\<lparr>running := False\<rparr>"

definition process_one_message :: "'w collaborators \<Rightarrow> 'w execution
    \<Rightarrow> (exn + unit) \<times> 'w execution" where
  "process_one_message env st =
     (case call_pull env
             \<lparr>subscription = consumer_subscription (consumer st), max_messages = 1\<rparr> 30 st of
        (Inl e, st1) \<Rightarrow> (Inl e, st1)
      | (Inr response, st1) \<Rightarrow>
          (case received_messages response of
             [] \<Rightarrow> (Inr (), st1)
           | received # _ \<Rightarrow>
               (case call_loads env (data (message received)) st1 of
                  (Inl e, st2) \<Rightarrow> (Inl e, st2)
                | (Inr message_data, st2) \<Rightarrow>
                    (case call_model env message_data st2 of
                       (Inl e, st3) \<Rightarrow> (Inl e, st3)
                     | (Inr request, st3) \<Rightarrow>
                         (case call_handle env request st3 of
                            (Inl e, st4) \<Rightarrow> (Inl e, st4)
                          | (Inr _, st4) \<Rightarrow>
                              call_acknowledge env
                                \<lparr>ack_subscription = consumer_subscription (consumer st4),
                                 ack_ids = [ack_id received]\<rparr> st4)))))"

text \<open>
  \<open>run\<close> is a \<open>while\<close> loop that need not end. The first argument bounds the number
  of times the loop condition is evaluated; \<open>None\<close> says the bound was too small.
\<close>

fun run :: "nat \<Rightarrow> 'w collaborators \<Rightarrow> 'w execution \<Rightarrow> ((exn + unit) \<times> 'w execution) option" where
  "run 0 env st = None"
| "run (Suc fuel) env st =
     (if running (consumer st) then
        (case process_one_message env (log_call ProcessOneMessage (log_call (WhileTest True) st)) of
           (Inl e, st1) \<Rightarrow> Some (Inl e, st1)
         | (Inr _, st1) \<Rightarrow> run fuel env st1)
      else Some (Inr (), log_call (WhileTest False) st))"

text \<open>The asynchronous variant: the same statements, with \<open>await\<close> at the three calls.\<close>

definition async_process_one_message :: "'w collaborators \<Rightarrow> 'w execution
    \<Rightarrow> (exn + unit) \<times> 'w execution" where
  "async_process_one_message env st =
     (case call_pull env
             \<lparr>subscription = consumer_subscription (consumer st), max_messages = 1\<rparr> 30 st of
        (Inl e, st1) \<Rightarrow> (Inl e, st1)
      | (Inr response, st1) \<Rightarrow>
          (case received_messages response of
             [] \<Rightarrow> (Inr (), st1)
           | received # _ \<Rightarrow>
               (case call_loads env (data (message received)) st1 of
                  (Inl e, st2) \<Rightarrow> (Inl e, st2)
                | (Inr message_data, st2) \<Rightarrow>
                    (case call_model env message_data st2 of
                       (Inl e, st3) \<Rightarrow> (Inl e, st3)
                     | (Inr request, st3) \<Rightarrow>
                         (case call_handle env request st3 of
                            (Inl e, st4) \<Rightarrow> (Inl e, st4)
                          | (Inr _, st4) \<Rightarrow>
                              call_acknowledge env
                                \<lparr>ack_subscription = consumer_subscription (consumer st4),
                                 ack_ids = [ack_id received]\<rparr> st4)))))"

fun async_run :: "nat \<Rightarrow> 'w collaborators \<Rightarrow> 'w execution
    \<Rightarrow> ((exn + unit) \<times> 'w execution) option" where
  "async_run 0 env st = None"
| "async_run (Suc fuel) env st =
     (if running (consumer st) then
        (case async_process_one_message env
                (log_call ProcessOneMessage (log_call (WhileTest True) st)) of
           (Inl e, st1) \<Rightarrow> Some (Inl e, st1)
         | (Inr _, st1) \<Rightarrow> async_run fuel env st1)
      else Some (Inr (), log_call (WhileTest False) st))"

text \<open>
  The test double of \<open>tests/test_message_consumer.py\<close>: \<open>pull\<close> stops the consumer and
  returns the prepared messages; \<open>acknowledge\<close> notes the acknowledged identifiers in the
  world; decoding, validation and the handler give prepared outcomes.
\<close>

definition mock_collaborators :: "received_message list \<Rightarrow> (exn + py_value) \<Rightarrow> (exn + py_value)
    \<Rightarrow> (exn + unit) \<Rightarrow> string list collaborators" where
  "mock_collaborators msgs loaded validated handled =
     \<lparr>subscriber_pull = (\<lambda>request timeout c. (Inr \<lparr>received_messages = msgs\<rparr>, stop c)),
      subscriber_acknowledge = (\<lambda>request c. (Inr (), c\<lparr>world := world c @ ack_ids request\<rparr>)),
      json_loads = (\<lambda>b. loaded),
      request_model = (\<lambda>message_data. validated),
      handler_handle = (\<lambda>request c. (handled, c))\<rparr>"

text \<open>
  The test double of \<open>test_consumer_continues_when_no_messages\<close>: every pull finds
  nothing, counts itself in the world, and the second one stops the consumer.
\<close>

definition idle_collaborators :: "nat collaborators" where
  "idle_collaborators =
     \<lparr>subscriber_pull = (\<lambda>request timeout c.
        (Inr \<lparr>received_messages = []\<rparr>,
         if 2 \<le> world c + 1 then stop (c\<lparr>world := world c + 1\<rparr>) else c\<lparr>world := world c + 1\<rparr>)),
      subscriber_acknowledge = (\<lambda>request c. (Inr (), c)),
      json_loads = (\<lambda>b. Inr PyNone),
      request_model = (\<lambda>message_data. Inr message_data),
      handler_handle = (\<lambda>request c. (Inr (), c))\<rparr>"

text \<open>The message and the started consumer of those tests.\<close>

definition example_message :: received_message where
  "example_message = \<lparr>message = \<lparr>data = [123, 125]\<rparr>, ack_id = ''ack-123''\<rparr>"

definition second_message :: received_message where
  "second_message = \<lparr>message = \<lparr>data = [91, 93]\<rparr>, ack_id = ''ack-456''\<rparr>"

definition started :: "'w \<Rightarrow> 'w execution" where
  "started w = \<lparr>consumer = start (new_consumer ''sync-sub'' w), calls = []\<rparr>"

section \<open>Notions used to state the properties\<close>

text \<open>The elements of a list in the order of their first occurrence.\<close>

definition first_occurrences :: "'a list \<Rightarrow> 'a list" where
  "first_occurrences xs = rev (remdups (rev xs))"

text \<open>
  The delivery a pull takes from the consume stream: its first item, unless the stream
  is empty or starts with the inactivity marker.
\<close>

fun first_delivery :: "consume_item list \<Rightarrow> (int \<times> bytes) option" where
  "first_delivery ((Some method, body) # rest) = Some (delivery_tag method, body)"
| "first_delivery ((None, body) # rest) = None"
| "first_delivery [] = None"

text \<open>
  A subscriber instance lives through a sequence of \<open>pull\<close> and \<open>acknowledge\<close> calls.
  \<open>history\<close> runs such a sequence from a fresh instance and keeps, beside the instance,
  the messages that pull responses have handed to the caller and that no later
  acknowledge request has named.
\<close>

datatype sub_op =
    Pull pull_request real "consume_item list"
  | Acknowledge acknowledge_request

fun track :: "rabbitmq_subscriber \<times> received_message list \<Rightarrow> sub_op
    \<Rightarrow> rabbitmq_subscriber \<times> received_message list" where
  "track (self, unacked) (Pull request timeout deliveries) =
     (case pull request timeout deliveries self of
        (response, self') \<Rightarrow> (self', unacked @ received_messages response))"
| "track (self, unacked) (Acknowledge request) =
     (acknowledge request self, filter (\<lambda>m. ack_id m \<notin> set (ack_ids request)) unacked)"

definition history :: "sub_op list \<Rightarrow> rabbitmq_subscriber \<times> received_message list" where
  "history ops = foldl track (new_subscriber, []) ops"

text \<open>The delivery tags under which the broker handed over the messages of a history.\<close>

fun surfaced_tag :: "sub_op \<Rightarrow> int list" where
  "surfaced_tag (Pull request timeout deliveries) =
     (case first_delivery deliveries of None \<Rightarrow> [] | Some (tag, body) \<Rightarrow> [tag])"
| "surfaced_tag (Acknowledge request) = []"

definition surfaced_tags :: "sub_op list \<Rightarrow> int list" where
  "surfaced_tags ops = concat (map surfaced_tag ops)"

text \<open>Reading a decimal numeral back, to show that \<open>str\<close> loses nothing.\<close>

definition digit_of :: "char \<Rightarrow> nat" where
  "digit_of c = of_char c - 48"

definition val_nat :: "string \<Rightarrow> nat" where
  "val_nat ds = foldl (\<lambda>a c. 10 * a + digit_of c) 0 ds"

text \<open>The request that \<open>process_one_message\<close> pulls with.\<close>

definition the_pull_request :: "'w execution \<Rightarrow> pull_request" where
  "the_pull_request st = \<lparr>subscription = consumer_subscription (consumer st), max_messages = 1\<rparr>"

text \<open>
  The state after \<open>k\<close> complete passes through the body of the \<open>run\<close> loop, whatever
  the flag says; \<open>None\<close> when one of the passes raised.
\<close>

fun after_iterations :: "('w collaborators \<Rightarrow> 'w execution \<Rightarrow> (exn + unit) \<times> 'w execution)
    \<Rightarrow> 'w collaborators \<Rightarrow> nat \<Rightarrow> 'w execution \<Rightarrow> 'w execution option" where
  "after_iterations pom env 0 st = Some st"
| "after_iterations pom env (Suc k) st =
     (case pom env (log_call ProcessOneMessage (log_call (WhileTest True) st)) of
        (Inl e, st1) \<Rightarrow> None
      | (Inr _, st1) \<Rightarrow> after_iterations pom env k st1)"

text \<open>The same collaborators, with every pull response cut down to its first message.\<close>

definition first_only :: "'w collaborators \<Rightarrow> 'w collaborators" where
  "first_only env = env\<lparr>subscriber_pull := (\<lambda>request timeout c.
     (case subscriber_pull env request timeout c of
        (Inl e, c1) \<Rightarrow> (Inl e, c1)
      | (Inr response, c1) \<Rightarrow>
          (Inr (response\<lparr>received_messages := take 1 (received_messages response)\<rparr>), c1)))\<rparr>"

text \<open>
  The two facts carried along a history: the table has an entry for exactly the tracked
  messages and maps the string form of a tag to that tag; and, when the broker uses every
  tag once, the tracked messages have pairwise different identifiers, all of them string
  forms of delivered tags.
\<close>

definition table_ok :: "rabbitmq_subscriber \<times> received_message list \<Rightarrow> bool" where
  "table_ok h = (dom (pending_acks (fst h)) = ack_id ` set (snd h)
     \<and> (\<forall>a t. pending_acks (fst h) a = Some t \<longrightarrow> a = str t))"

definition ids_ok :: "int list \<Rightarrow> received_message list \<Rightarrow> bool" where
  "ids_ok tags unacked = (distinct (map ack_id unacked) \<and> ack_id ` set unacked \<subseteq> str ` set tags)"

text \<open>
  A short life of a subscriber: two pulls that each receive a message, the second with
  more deliveries waiting, then an acknowledge of the first message.
\<close>

definition example_ops :: "sub_op list" where
  "example_ops =
     [Pull \<lparr>subscription = ''q'', max_messages = 1\<rparr> 5 [(Some (Deliver 1), [104])],
      Pull \<lparr>subscription = ''q'', max_messages = 1\<rparr> 5
        [(Some (Deliver 2), [105]), (Some (Deliver 3), [106])],
      Acknowledge \<lparr>ack_subscription = ''q'', ack_ids = [''1'']\<rparr>]"

section \<open>Publisher: topic addressing\<close>

lemma split_colon_1_append:
  assumes "CHR '':'' \<notin> set ex"
  shows "split_colon_1 (ex @ CHR '':'' # rk) = (ex, rk)"
proof -
  have tw: "takeWhile (\<lambda>c. c \<noteq> CHR '':'') (ex @ CHR '':'' # rk) = ex"
    using assms by (induction ex) auto
  have dw: "dropWhile (\<lambda>c. c \<noteq> CHR '':'') (ex @ CHR '':'' # rk) = CHR '':'' # rk"
    using assms by (induction ex) auto
  show ?thesis
    by (simp add: split_colon_1_def tw dw)
qed

lemma split_colon_1_decompose:
  assumes "CHR '':'' \<in> set topic"
  shows "topic = fst (split_colon_1 topic) @ CHR '':'' # snd (split_colon_1 topic)
         \<and> CHR '':'' \<notin> set (fst (split_colon_1 topic))"
proof -
  let ?p = "\<lambda>c. c \<noteq> CHR '':''"
  from assms have ne: "dropWhile ?p topic \<noteq> []"
    by (auto simp: dropWhile_eq_Nil_conv)
  then have hd_colon: "hd (dropWhile ?p topic) = CHR '':''"
    using hd_dropWhile [of ?p topic] by simp
  from ne hd_colon have "dropWhile ?p topic = CHR '':'' # tl (dropWhile ?p topic)"
    by (cases "dropWhile ?p topic") auto
  then have "topic = takeWhile ?p topic @ CHR '':'' # tl (dropWhile ?p topic)"
    using takeWhile_dropWhile_id [of ?p topic] by simp
  moreover have "CHR '':'' \<notin> set (takeWhile ?p topic)"
    by (auto dest: set_takeWhileD)
  ultimately show ?thesis
    by (simp add: split_colon_1_def)
qed

text \<open>
  C7. A topic \<open>ex:rk\<close>, where \<open>ex\<close> is the text before the first separator, is published
  to exchange \<open>ex\<close> with routing key \<open>rk\<close>, and every topic containing a separator has
  that form; a topic without separator is published to the default exchange \<open>''''\<close> with
  the topic itself as routing key. In both cases exactly one \<open>basic_publish\<close> is issued,
  it carries the payload unchanged, and its properties have delivery mode 2 (persistent).
\<close>

theorem publish_topic_addressing:
  "(CHR '':'' \<notin> set ex \<longrightarrow>
      pub_channel (snd (publish (ex @ CHR '':'' # rk) body kw self))
        = pub_channel self @ [BasicPublish ex rk body (BasicProperties 2)])
   \<and> (CHR '':'' \<in> set topic \<longrightarrow>
      (\<exists>ex rk. topic = ex @ CHR '':'' # rk \<and> CHR '':'' \<notin> set ex
         \<and> pub_channel (snd (publish topic body kw self))
             = pub_channel self @ [BasicPublish ex rk body (BasicProperties 2)]))
   \<and> (CHR '':'' \<notin> set topic \<longrightarrow>
      pub_channel (snd (publish topic body kw self))
        = pub_channel self @ [BasicPublish '''' topic body (BasicProperties 2)])
   \<and> delivery_mode (BasicProperties 2) = Some 2"
proof (intro conjI impI)
  assume "CHR '':'' \<notin> set ex"
  then show "pub_channel (snd (publish (ex @ CHR '':'' # rk) body kw self))
        = pub_channel self @ [BasicPublish ex rk body (BasicProperties 2)]"
    by (simp add: publish_def split_colon_1_append basic_publish_def)
next
  assume c: "CHR '':'' \<in> set topic"
  obtain ex rk where sp: "split_colon_1 topic = (ex, rk)"
    by (cases "split_colon_1 topic")
  from split_colon_1_decompose [OF c] sp
  have "topic = ex @ CHR '':'' # rk" and "CHR '':'' \<notin> set ex"
    by simp_all
  moreover from c sp
  have "pub_channel (snd (publish topic body kw self))
          = pub_channel self @ [BasicPublish ex rk body (BasicProperties 2)]"
    by (simp add: publish_def basic_publish_def)
  ultimately show "\<exists>ex rk. topic = ex @ CHR '':'' # rk \<and> CHR '':'' \<notin> set ex
         \<and> pub_channel (snd (publish topic body kw self))
             = pub_channel self @ [BasicPublish ex rk body (BasicProperties 2)]"
    by blast
next
  assume "CHR '':'' \<notin> set topic"
  then show "pub_channel (snd (publish topic body kw self))
        = pub_channel self @ [BasicPublish '''' topic body (BasicProperties 2)]"
    by (simp add: publish_def basic_publish_def)
next
  show "delivery_mode (BasicProperties 2) = Some 2"
    by (simp add: BasicProperties_def)
qed

theorem publish_topic_addressing_witness:
  "CHR '':'' \<notin> set ''test-exchange''
   \<and> CHR '':'' \<in> set ''ex:rk:x''
   \<and> CHR '':'' \<notin> set ''test-queue''
   \<and> pub_channel (snd (publish ''test-exchange:test.route'' [104, 105] [] new_publisher))
       = [BasicPublish ''test-exchange'' ''test.route'' [104, 105] (BasicProperties 2)]
   \<and> (\<exists>ex rk. ''ex:rk:x'' = ex @ CHR '':'' # rk \<and> CHR '':'' \<notin> set ex
         \<and> pub_channel (snd (publish ''ex:rk:x'' [104, 105] [] new_publisher))
             = [BasicPublish ex rk [104, 105] (BasicProperties 2)])
   \<and> pub_channel (snd (publish ''test-queue'' [104, 105] [] new_publisher))
       = [BasicPublish '''' ''test-queue'' [104, 105] (BasicProperties 2)]"
  using publish_topic_addressing [where ex = "''test-exchange''" and rk = "''test.route''"
      and body = "[104, 105]" and kw = "[]" and self = new_publisher and topic = "''test-queue''"]
    publish_topic_addressing [where ex = "''test-exchange''" and rk = "''test.route''"
      and body = "[104, 105]" and kw = "[]" and self = new_publisher and topic = "''ex:rk:x''"]
  by (simp add: new_publisher_def)

section \<open>Publisher: keyword arguments\<close>

text \<open>
  C9. The keyword arguments of \<open>publish\<close> have no influence: two calls that differ only
  in them issue the same broker call and return the same result (also when one passes
  none), and the properties of the published message carry no headers.
\<close>

theorem publish_ignores_kwargs:
  "publish topic body kw1 self = publish topic body kw2 self
   \<and> publish topic body kw1 self = publish topic body [] self
   \<and> (\<exists>ex rk. pub_channel (snd (publish topic body kw1 self))
          = pub_channel self @ [BasicPublish ex rk body \<lparr>delivery_mode = Some 2, headers = None\<rparr>])
   \<and> fst (publish topic body kw1 self) = \<lparr>message_id = ''''\<rparr>"
  by (simp add: publish_def basic_publish_def BasicProperties_def split: prod.splits)

section \<open>Subscriber: the string form of a delivery tag\<close>

lemma str_nat_small: "n < 10 \<Longrightarrow> str_nat n = [digit_char n]"
  by (simp add: str_nat.simps)

lemma str_nat_large: "10 \<le> n \<Longrightarrow> str_nat n = str_nat (n div 10) @ [digit_char (n mod 10)]"
  by (subst str_nat.simps) simp

lemma digit_cases: "d < 10 \<Longrightarrow> d \<in> {0, 1, 2, 3, 4, 5, 6, 7, 8, 9::nat}"
  by auto

lemma digit_of_digit_char: "d < 10 \<Longrightarrow> digit_of (digit_char d) = d"
  using digit_cases [of d] by (auto simp: digit_of_def digit_char_def)

lemma digit_char_not_minus: "d < 10 \<Longrightarrow> digit_char d \<noteq> CHR ''-''"
  using digit_cases [of d] by (auto simp: digit_char_def)

lemma val_nat_snoc: "val_nat (ds @ [c]) = 10 * val_nat ds + digit_of c"
  by (simp add: val_nat_def)

lemma val_nat_str_nat: "val_nat (str_nat n) = n"
proof (induction n rule: str_nat.induct)
  case (1 n)
  show ?case
  proof (cases "n < 10")
    case True
    then show ?thesis
      by (simp add: str_nat_small val_nat_def digit_of_digit_char)
  next
    case False
    then have "val_nat (str_nat (n div 10)) = n div 10"
      using "1.IH" by simp
    with False show ?thesis
      by (simp add: str_nat_large val_nat_snoc digit_of_digit_char)
  qed
qed

lemma str_nat_inj: "str_nat n = str_nat m \<Longrightarrow> n = m"
  by (metis val_nat_str_nat)

lemma hd_str_nat: "str_nat n \<noteq> [] \<and> hd (str_nat n) \<noteq> CHR ''-''"
proof (induction n rule: str_nat.induct)
  case (1 n)
  show ?case
  proof (cases "n < 10")
    case True
    then show ?thesis
      by (simp add: str_nat_small digit_char_not_minus)
  next
    case False
    then have "str_nat (n div 10) \<noteq> [] \<and> hd (str_nat (n div 10)) \<noteq> CHR ''-''"
      using "1.IH" by simp
    with False show ?thesis
      by (simp add: str_nat_large)
  qed
qed

lemma str_inj: "str i = str j \<Longrightarrow> i = j"
proof -
  assume eq: "str i = str j"
  have neg_pos: False if "a < 0" "0 \<le> b" "str a = str b" for a b
  proof -
    from that have "CHR ''-'' # str_nat (nat (- a)) = str_nat (nat b)"
      by (simp add: str_def)
    then have "hd (str_nat (nat b)) = CHR ''-''"
      by (metis list.sel(1))
    with hd_str_nat [of "nat b"] show False by simp
  qed
  show ?thesis
  proof (cases "i < 0")
    case True
    show ?thesis
    proof (cases "j < 0")
      case True
      with \<open>i < 0\<close> eq have "str_nat (nat (- i)) = str_nat (nat (- j))"
        by (simp add: str_def)
      then have "nat (- i) = nat (- j)" by (rule str_nat_inj)
      with True \<open>i < 0\<close> show ?thesis by simp
    next
      case False
      with \<open>i < 0\<close> eq neg_pos [of i j] show ?thesis by simp
    qed
  next
    case False
    show ?thesis
    proof (cases "j < 0")
      case True
      with False eq neg_pos [of j i] show ?thesis by simp
    next
      case False
      with \<open>\<not> i < 0\<close> eq have "str_nat (nat i) = str_nat (nat j)"
        by (simp add: str_def)
      then have "nat i = nat j" by (rule str_nat_inj)
      with False \<open>\<not> i < 0\<close> show ?thesis by simp
    qed
  qed
qed

lemmas str_eval = str_def str_nat_small str_nat_large digit_char_def

section \<open>Subscriber: what pull and acknowledge do\<close>

lemma pull_timeout:
  assumes "first_delivery deliveries = None"
  shows "pull request timeout deliveries self
         = (\<lparr>received_messages = []\<rparr>,
            \<lparr>sub_channel = sub_channel self @ [Consume (subscription request) False timeout, Cancel],
             pending_acks = pending_acks self\<rparr>)"
  using assms
  by (cases deliveries rule: first_delivery.cases)
     (simp_all add: pull_def consume_def cancel_def Let_def)

lemma pull_delivery:
  assumes "first_delivery deliveries = Some (tag, body)"
  shows "pull request timeout deliveries self
         = (\<lparr>received_messages = [\<lparr>message = \<lparr>data = body\<rparr>, ack_id = str tag\<rparr>]\<rparr>,
            \<lparr>sub_channel = sub_channel self @ [Consume (subscription request) False timeout, Cancel],
             pending_acks = (pending_acks self)(str tag \<mapsto> tag)\<rparr>)"
  using assms
  by (cases deliveries rule: first_delivery.cases)
     (simp_all add: pull_def consume_def cancel_def Let_def)

lemma first_occurrences_Cons:
  "first_occurrences (a # xs) = a # filter (\<lambda>x. x \<noteq> a) (first_occurrences xs)"
proof -
  have "remdups (ys @ [a]) = remdups (filter (\<lambda>x. x \<noteq> a) ys) @ [a]" for ys
    by (induction ys) auto
  then have "remdups (rev xs @ [a]) = remdups (filter (\<lambda>x. x \<noteq> a) (rev xs)) @ [a]" .
  then show ?thesis
    by (simp add: first_occurrences_def remdups_filter rev_filter)
qed

lemma map_filter_upd_None:
  "List.map_filter (m(a := None)) xs = List.map_filter m (filter (\<lambda>x. x \<noteq> a) xs)"
  by (induction xs) (auto simp: List.map_filter_simps split: option.splits)

lemma restrict_upd_None:
  "(m(a := None)) |` (- set ids) = m |` (- set (a # ids))"
  by (auto simp: restrict_map_def fun_eq_iff)

lemma acknowledge_loop_effect:
  "pending_acks (acknowledge_loop ids self) = pending_acks self |` (- set ids)
   \<and> sub_channel (acknowledge_loop ids self)
       = sub_channel self @ map BasicAck (List.map_filter (pending_acks self) (first_occurrences ids))"
proof (induction ids arbitrary: self)
  case Nil
  show ?case
    by (simp add: first_occurrences_def List.map_filter_simps)
next
  case (Cons a ids)
  let ?m = "(pending_acks self)(a := None)"
  let ?rest = "List.map_filter (pending_acks self) (filter (\<lambda>x. x \<noteq> a) (first_occurrences ids))"
  let ?all = "List.map_filter (pending_acks self) (first_occurrences (a # ids))"
  have table: "pending_acks (acknowledge_loop (a # ids) self) = pending_acks self |` (- set (a # ids))"
    and issued: "sub_channel (acknowledge_loop (a # ids) self) = sub_channel self @ map BasicAck ?all"
    if step: "acknowledge_loop (a # ids) self = acknowledge_loop ids s1"
      and p: "pending_acks s1 = ?m"
      and c: "sub_channel s1 @ map BasicAck ?rest = sub_channel self @ map BasicAck ?all"
    for s1
  proof -
    have "pending_acks (acknowledge_loop ids s1) = ?m |` (- set ids)"
      using Cons.IH [of s1] p by (simp only:)
    then show "pending_acks (acknowledge_loop (a # ids) self) = pending_acks self |` (- set (a # ids))"
      by (simp only: step restrict_upd_None)
    have "sub_channel (acknowledge_loop ids s1)
          = sub_channel s1 @ map BasicAck (List.map_filter ?m (first_occurrences ids))"
      using Cons.IH [of s1] p by (simp only:)
    then show "sub_channel (acknowledge_loop (a # ids) self) = sub_channel self @ map BasicAck ?all"
      by (simp only: step map_filter_upd_None c)
  qed
  show ?case
  proof (cases "pending_acks self a")
    case None
    let ?s1 = "self\<lparr>pending_acks := ?m\<rparr>"
    have "acknowledge_loop (a # ids) self = acknowledge_loop ids ?s1"
      using None by simp
    moreover have "pending_acks ?s1 = ?m"
      by simp
    moreover have "sub_channel ?s1 @ map BasicAck ?rest = sub_channel self @ map BasicAck ?all"
      using None by (simp add: first_occurrences_Cons List.map_filter_simps)
    ultimately show ?thesis
      using table [of ?s1] issued [of ?s1] by blast
  next
    case (Some t)
    let ?s1 = "self\<lparr>pending_acks := ?m, sub_channel := basic_ack t (sub_channel self)\<rparr>"
    have "acknowledge_loop (a # ids) self = acknowledge_loop ids ?s1"
      using Some by simp
    moreover have "pending_acks ?s1 = ?m"
      by simp
    moreover have "sub_channel ?s1 @ map BasicAck ?rest = sub_channel self @ map BasicAck ?all"
      using Some by (simp add: first_occurrences_Cons List.map_filter_simps basic_ack_def)
    ultimately show ?thesis
      using table [of ?s1] issued [of ?s1] by blast
  qed
qed

lemma acknowledge_loop_unknown:
  "\<forall>a \<in> set ids. pending_acks self a = None \<Longrightarrow> acknowledge_loop ids self = self"
proof (induction ids arbitrary: self)
  case Nil
  show ?case by simp
next
  case (Cons a ids)
  then have "pending_acks self a = None" by simp
  then have "(pending_acks self)(a := None) = pending_acks self"
    by (auto simp: fun_eq_iff)
  with Cons show ?case by simp
qed

lemma acknowledge_table:
  "pending_acks (acknowledge request self) = pending_acks self |` (- set (ack_ids request))"
  by (simp add: acknowledge_def acknowledge_loop_effect)

section \<open>Subscriber: acknowledge\<close>

text \<open>
  C1. For every acknowledge request, the identifiers of the request leave the correlation
  table and nothing else does; the broker's \<open>basic_ack\<close> is issued once for each
  identifier of the request that the table knows, with the delivery tag the table maps it
  to, in the order of first mention, and no other broker call is made. An identifier that
  the table knows is removed with one \<open>basic_ack\<close>; a request of unknown identifiers
  only leaves the subscriber as it was; acknowledging the same request a second time
  changes nothing. \<open>acknowledge\<close> has no failing branch.
\<close>

theorem acknowledge_idempotent:
  "pending_acks (acknowledge request self) = pending_acks self |` (- set (ack_ids request))
   \<and> sub_channel (acknowledge request self)
       = sub_channel self
         @ map BasicAck (List.map_filter (pending_acks self) (first_occurrences (ack_ids request)))
   \<and> (pending_acks self a = Some t \<longrightarrow>
        acknowledge \<lparr>ack_subscription = sub, ack_ids = [a]\<rparr> self
          = self\<lparr>pending_acks := (pending_acks self)(a := None),
                 sub_channel := sub_channel self @ [BasicAck t]\<rparr>)
   \<and> ((\<forall>a \<in> set (ack_ids request). pending_acks self a = None) \<longrightarrow>
        acknowledge request self = self)
   \<and> acknowledge request (acknowledge request self) = acknowledge request self"
proof (intro conjI impI)
  show "pending_acks (acknowledge request self) = pending_acks self |` (- set (ack_ids request))"
    by (rule acknowledge_table)
  show "sub_channel (acknowledge request self)
       = sub_channel self
         @ map BasicAck (List.map_filter (pending_acks self) (first_occurrences (ack_ids request)))"
    by (simp add: acknowledge_def acknowledge_loop_effect)
  show "acknowledge \<lparr>ack_subscription = sub, ack_ids = [a]\<rparr> self
          = self\<lparr>pending_acks := (pending_acks self)(a := None),
                 sub_channel := sub_channel self @ [BasicAck t]\<rparr>"
    if "pending_acks self a = Some t"
    using that by (simp add: acknowledge_def basic_ack_def)
  show "acknowledge request self = self"
    if "\<forall>a \<in> set (ack_ids request). pending_acks self a = None"
    using that by (simp add: acknowledge_def acknowledge_loop_unknown)
  have "\<forall>a \<in> set (ack_ids request). pending_acks (acknowledge request self) a = None"
    by (simp add: acknowledge_table)
  then show "acknowledge request (acknowledge request self) = acknowledge request self"
    by (simp add: acknowledge_def acknowledge_loop_unknown)
qed

theorem acknowledge_idempotent_witness:
  "pending_acks \<lparr>sub_channel = [], pending_acks = [''1'' \<mapsto> 1, ''2'' \<mapsto> 2]\<rparr> ''2'' = Some 2
   \<and> pending_acks \<lparr>sub_channel = [], pending_acks = [''1'' \<mapsto> 1, ''2'' \<mapsto> 2]\<rparr> ''7'' = None
   \<and> pending_acks \<lparr>sub_channel = [], pending_acks = [''1'' \<mapsto> 1, ''2'' \<mapsto> 2]\<rparr> ''2x'' = None
   \<and> acknowledge \<lparr>ack_subscription = ''q'', ack_ids = [''2'']\<rparr>
        \<lparr>sub_channel = [], pending_acks = [''1'' \<mapsto> 1, ''2'' \<mapsto> 2]\<rparr>
      = \<lparr>sub_channel = [BasicAck 2], pending_acks = [''1'' \<mapsto> 1, ''2'' \<mapsto> 2](''2'' := None)\<rparr>
   \<and> acknowledge \<lparr>ack_subscription = ''q'', ack_ids = [''7'', ''2x'']\<rparr>
        \<lparr>sub_channel = [], pending_acks = [''1'' \<mapsto> 1, ''2'' \<mapsto> 2]\<rparr>
      = \<lparr>sub_channel = [], pending_acks = [''1'' \<mapsto> 1, ''2'' \<mapsto> 2]\<rparr>"
  using acknowledge_idempotent [where self = "\<lparr>sub_channel = [], pending_acks = [''1'' \<mapsto> 1, ''2'' \<mapsto> 2]\<rparr>"
      and request = "\<lparr>ack_subscription = ''q'', ack_ids = [''7'', ''2x'']\<rparr>"
      and a = "''2''" and t = 2 and sub = "''q''"]
  by simp

section \<open>Subscriber: pull\<close>

text \<open>
  C6. Whatever \<open>max_messages\<close> asks for and whatever the broker has ready, a pull returns
  at most one message, and \<open>max_messages\<close> has no influence on the outcome at all. When
  the consume stream reports inactivity first, or ends at once, the response is the empty
  sequence and the table is untouched; \<open>pull\<close> has no failing branch, so this is an
  ordinary return. When a delivery comes first, it is the one message returned.
\<close>

theorem pull_at_most_one:
  "length (received_messages (fst (pull request timeout deliveries self))) \<le> 1
   \<and> pull (request\<lparr>max_messages := n\<rparr>) timeout deliveries self
       = pull request timeout deliveries self
   \<and> pull request timeout ((None, body) # rest) self
       = (\<lparr>received_messages = []\<rparr>,
          \<lparr>sub_channel = sub_channel self @ [Consume (subscription request) False timeout, Cancel],
           pending_acks = pending_acks self\<rparr>)
   \<and> pull request timeout [] self
       = (\<lparr>received_messages = []\<rparr>,
          \<lparr>sub_channel = sub_channel self @ [Consume (subscription request) False timeout, Cancel],
           pending_acks = pending_acks self\<rparr>)
   \<and> received_messages (fst (pull request timeout ((Some method, body) # rest) self))
       = [\<lparr>message = \<lparr>data = body\<rparr>, ack_id = str (delivery_tag method)\<rparr>]"
proof (intro conjI)
  show "length (received_messages (fst (pull request timeout deliveries self))) \<le> 1"
  proof (cases "first_delivery deliveries")
    case None
    then show ?thesis by (simp add: pull_timeout)
  next
    case (Some p)
    then obtain tag b where "first_delivery deliveries = Some (tag, b)"
      by (cases p) simp
    then show ?thesis by (simp add: pull_delivery)
  qed
  show "pull (request\<lparr>max_messages := n\<rparr>) timeout deliveries self
       = pull request timeout deliveries self"
    by (simp add: pull_def)
  show "pull request timeout ((None, body) # rest) self
       = (\<lparr>received_messages = []\<rparr>,
          \<lparr>sub_channel = sub_channel self @ [Consume (subscription request) False timeout, Cancel],
           pending_acks = pending_acks self\<rparr>)"
    by (simp add: pull_timeout)
  show "pull request timeout [] self
       = (\<lparr>received_messages = []\<rparr>,
          \<lparr>sub_channel = sub_channel self @ [Consume (subscription request) False timeout, Cancel],
           pending_acks = pending_acks self\<rparr>)"
    by (simp add: pull_timeout)
  show "received_messages (fst (pull request timeout ((Some method, body) # rest) self))
       = [\<lparr>message = \<lparr>data = body\<rparr>, ack_id = str (delivery_tag method)\<rparr>]"
    by (simp add: pull_delivery)
qed

section \<open>Subscriber: the correlation table along a history\<close>

lemma table_ok_track:
  assumes "table_ok h"
  shows "table_ok (track h op)"
proof -
  obtain self unacked where h: "h = (self, unacked)" by (cases h)
  from assms h have d: "dom (pending_acks self) = ack_id ` set unacked"
    and v: "\<And>a t. pending_acks self a = Some t \<Longrightarrow> a = str t"
    by (auto simp: table_ok_def)
  show ?thesis
  proof (cases op)
    case (Pull request timeout deliveries)
    show ?thesis
    proof (cases "first_delivery deliveries")
      case None
      with Pull h d v show ?thesis
        by (auto simp: table_ok_def pull_timeout)
    next
      case (Some p)
      then obtain tag body where "first_delivery deliveries = Some (tag, body)"
        by (cases p) simp
      with Pull h d v show ?thesis
        by (auto simp: table_ok_def pull_delivery)
    qed
  next
    case (Acknowledge request)
    let ?ids = "set (ack_ids request)"
    have "dom (pending_acks self |` (- ?ids)) = dom (pending_acks self) - ?ids"
      by auto
    also have "\<dots> = ack_id ` set (filter (\<lambda>m. ack_id m \<notin> ?ids) unacked)"
      unfolding d by auto
    finally have d': "dom (pending_acks self |` (- ?ids))
        = ack_id ` set (filter (\<lambda>m. ack_id m \<notin> ?ids) unacked)" .
    have v': "a = str t" if "(pending_acks self |` (- ?ids)) a = Some t" for a t
      using that v [of a t] by (simp add: restrict_map_def split: if_splits)
    from d' v' Acknowledge h show ?thesis
      by (simp add: table_ok_def acknowledge_table)
  qed
qed

lemma table_ok_history: "table_ok (history ops)"
proof (induction ops rule: rev_induct)
  case Nil
  show ?case by (simp add: history_def table_ok_def new_subscriber_def)
next
  case (snoc op ops)
  then show ?case by (simp add: history_def table_ok_track)
qed

lemma ids_ok_history:
  "distinct (surfaced_tags ops) \<Longrightarrow> ids_ok (surfaced_tags ops) (snd (history ops))"
proof (induction ops rule: rev_induct)
  case Nil
  show ?case by (simp add: history_def ids_ok_def surfaced_tags_def)
next
  case (snoc op ops)
  obtain self unacked where h: "history ops = (self, unacked)" by (cases "history ops")
  from snoc.prems have dist: "distinct (surfaced_tags ops)"
    by (simp add: surfaced_tags_def)
  with snoc.IH h have d: "distinct (map ack_id unacked)"
    and s: "ack_id ` set unacked \<subseteq> str ` set (surfaced_tags ops)"
    by (simp_all add: ids_ok_def)
  have hist: "history (ops @ [op]) = track (self, unacked) op"
    using h by (simp add: history_def)
  have tags: "surfaced_tags (ops @ [op]) = surfaced_tags ops @ surfaced_tag op"
    by (simp add: surfaced_tags_def)
  show ?case
  proof (cases op)
    case (Pull request timeout deliveries)
    show ?thesis
    proof (cases "first_delivery deliveries")
      case None
      with Pull d s show ?thesis
        unfolding hist tags by (simp add: ids_ok_def pull_timeout)
    next
      case (Some p)
      then obtain tag body where fd: "first_delivery deliveries = Some (tag, body)"
        by (cases p) simp
      from snoc.prems Pull fd have fresh: "tag \<notin> set (surfaced_tags ops)"
        unfolding tags by simp
      have "str tag \<notin> ack_id ` set unacked"
      proof
        assume "str tag \<in> ack_id ` set unacked"
        with s obtain t where "t \<in> set (surfaced_tags ops)" and "str tag = str t"
          by blast
        with fresh show False by (auto dest: str_inj)
      qed
      with Pull fd d s show ?thesis
        unfolding hist tags by (auto simp: ids_ok_def pull_delivery)
    qed
  next
    case (Acknowledge request)
    with d s show ?thesis
      unfolding hist tags by (auto simp: ids_ok_def distinct_map_filter)
  qed
qed

lemma card_table:
  assumes "distinct (surfaced_tags ops)"
  shows "card (dom (pending_acks (fst (history ops)))) = length (snd (history ops))"
proof -
  from ids_ok_history [OF assms] have "distinct (map ack_id (snd (history ops)))"
    by (simp add: ids_ok_def)
  then have "card (set (map ack_id (snd (history ops)))) = length (snd (history ops))"
    using distinct_card by fastforce
  moreover have "dom (pending_acks (fst (history ops))) = set (map ack_id (snd (history ops)))"
    using table_ok_history [of ops] by (simp add: table_ok_def)
  ultimately show ?thesis by simp
qed

lemma pull_only_adds:
  assumes "\<forall>a t. pending_acks self a = Some t \<longrightarrow> a = str t"
  shows "pending_acks self \<subseteq>\<^sub>m pending_acks (snd (pull request timeout deliveries self))"
proof (cases "first_delivery deliveries")
  case None
  then show ?thesis by (simp add: pull_timeout)
next
  case (Some p)
  then obtain tag body where fd: "first_delivery deliveries = Some (tag, body)"
    by (cases p) simp
  have "pending_acks self \<subseteq>\<^sub>m (pending_acks self)(str tag \<mapsto> tag)"
    using assms by (auto simp: map_le_def dest: str_inj)
  with fd show ?thesis by (simp add: pull_delivery)
qed

lemma acknowledge_only_removes:
  "pending_acks (acknowledge request self) \<subseteq>\<^sub>m pending_acks self"
  by (simp add: acknowledge_table map_le_def)

lemma history_example:
  "history example_ops
   = (\<lparr>sub_channel = [Consume ''q'' False 5, Cancel, Consume ''q'' False 5, Cancel, BasicAck 1],
       pending_acks = [''1'' \<mapsto> 1, ''2'' \<mapsto> 2](''1'' := None)\<rparr>,
      [\<lparr>message = \<lparr>data = [105]\<rparr>, ack_id = ''2''\<rparr>])"
  by (simp add: history_def example_ops_def new_subscriber_def pull_def Let_def consume_def
      cancel_def acknowledge_def basic_ack_def str_eval)

text \<open>
  C2. In the state a subscriber instance reaches after any sequence of pulls and
  acknowledges, the keys of the correlation table are exactly the identifiers of the
  messages that pulls have handed out and that no later acknowledge has named, and every
  entry maps the string form of a delivery tag to that tag; different tags have different
  string forms. When the broker uses each delivery tag once on the channel, as the
  protocol has it, the messages handed out and not yet acknowledged have pairwise
  different identifiers, so the table has one entry for each of them. A pull that takes a
  delivery returns it under the string form of its tag and enters that pair at that
  moment; a pull that takes none leaves the table alone; no pull removes or changes an
  entry and no acknowledge adds or changes one.
\<close>

theorem correlation_table_invariant:
  "dom (pending_acks (fst (history ops))) = ack_id ` set (snd (history ops))
   \<and> (pending_acks (fst (history ops)) a = Some t \<longrightarrow> a = str t)
   \<and> (str t1 = str t2 \<longrightarrow> t1 = t2)
   \<and> (distinct (surfaced_tags ops) \<longrightarrow>
        distinct (map ack_id (snd (history ops)))
        \<and> card (dom (pending_acks (fst (history ops)))) = length (snd (history ops)))
   \<and> (first_delivery deliveries = Some (tag, body) \<longrightarrow>
        received_messages (fst (pull request timeout deliveries (fst (history ops))))
          = [\<lparr>message = \<lparr>data = body\<rparr>, ack_id = str tag\<rparr>]
        \<and> pending_acks (snd (pull request timeout deliveries (fst (history ops))))
          = (pending_acks (fst (history ops)))(str tag \<mapsto> tag))
   \<and> (first_delivery deliveries = None \<longrightarrow>
        pending_acks (snd (pull request timeout deliveries (fst (history ops))))
          = pending_acks (fst (history ops)))
   \<and> pending_acks (fst (history ops))
        \<subseteq>\<^sub>m pending_acks (snd (pull request timeout deliveries (fst (history ops))))
   \<and> pending_acks (acknowledge arequest (fst (history ops))) \<subseteq>\<^sub>m pending_acks (fst (history ops))"
proof -
  have ok: "table_ok (history ops)"
    by (rule table_ok_history)
  then have entries: "\<forall>a t. pending_acks (fst (history ops)) a = Some t \<longrightarrow> a = str t"
    by (simp add: table_ok_def)
  have c1: "dom (pending_acks (fst (history ops))) = ack_id ` set (snd (history ops))"
    using ok by (simp add: table_ok_def)
  have c2: "pending_acks (fst (history ops)) a = Some t \<longrightarrow> a = str t"
    using entries by blast
  have c3: "str t1 = str t2 \<longrightarrow> t1 = t2"
    by (auto dest: str_inj)
  have c4: "distinct (surfaced_tags ops) \<longrightarrow>
        distinct (map ack_id (snd (history ops)))
        \<and> card (dom (pending_acks (fst (history ops)))) = length (snd (history ops))"
  proof
    assume d: "distinct (surfaced_tags ops)"
    from ids_ok_history [OF d] have "distinct (map ack_id (snd (history ops)))"
      by (simp add: ids_ok_def)
    with card_table [OF d]
    show "distinct (map ack_id (snd (history ops)))
        \<and> card (dom (pending_acks (fst (history ops)))) = length (snd (history ops))"
      by blast
  qed
  have c5: "first_delivery deliveries = Some (tag, body) \<longrightarrow>
        received_messages (fst (pull request timeout deliveries (fst (history ops))))
          = [\<lparr>message = \<lparr>data = body\<rparr>, ack_id = str tag\<rparr>]
        \<and> pending_acks (snd (pull request timeout deliveries (fst (history ops))))
          = (pending_acks (fst (history ops)))(str tag \<mapsto> tag)"
    by (simp add: pull_delivery)
  have c6: "first_delivery deliveries = None \<longrightarrow>
        pending_acks (snd (pull request timeout deliveries (fst (history ops))))
          = pending_acks (fst (history ops))"
    by (simp add: pull_timeout)
  have c7: "pending_acks (fst (history ops))
        \<subseteq>\<^sub>m pending_acks (snd (pull request timeout deliveries (fst (history ops))))"
    by (rule pull_only_adds [OF entries])
  have c8: "pending_acks (acknowledge arequest (fst (history ops)))
        \<subseteq>\<^sub>m pending_acks (fst (history ops))"
    by (rule acknowledge_only_removes)
  from c1 c2 c3 c4 c5 c6 c7 c8 show ?thesis
    by blast
qed

theorem correlation_table_invariant_witness:
  "pending_acks (fst (history example_ops)) ''2'' = Some 2
   \<and> str 12 = str 12
   \<and> distinct (surfaced_tags example_ops)
   \<and> first_delivery [(Some (Deliver 3), [106])] = Some (3, [106])
   \<and> first_delivery [(None, [])] = None
   \<and> ''2'' = str 2
   \<and> snd (history example_ops) = [\<lparr>message = \<lparr>data = [105]\<rparr>, ack_id = ''2''\<rparr>]
   \<and> card (dom (pending_acks (fst (history example_ops)))) = 1
   \<and> pending_acks (snd (pull \<lparr>subscription = ''q'', max_messages = 1\<rparr> 5 [(Some (Deliver 3), [106])]
        (fst (history example_ops)))) ''3'' = Some 3
   \<and> pending_acks (snd (pull \<lparr>subscription = ''q'', max_messages = 1\<rparr> 5 [(None, [])]
        (fst (history example_ops)))) = pending_acks (fst (history example_ops))"
proof -
  have d: "distinct (surfaced_tags example_ops)"
    by (simp add: surfaced_tags_def example_ops_def)
  have p: "pending_acks (fst (history example_ops)) ''2'' = Some 2"
    by (simp add: history_example)
  have f: "first_delivery [(Some (Deliver 3), [106])] = Some (3, [106])"
    by simp
  have n: "first_delivery [(None, [])] = None"
    by simp
  have s: "str 3 = ''3''" "str 2 = ''2''"
    by (simp_all add: str_eval)
  show ?thesis
    using d p f n s
      correlation_table_invariant [where ops = example_ops and a = "''2''" and t = 2
        and ?t1.0 = 12 and ?t2.0 = 12 and deliveries = "[(Some (Deliver 3), [106])]"
        and tag = 3 and body = "[106]" and request = "\<lparr>subscription = ''q'', max_messages = 1\<rparr>"
        and timeout = 5]
      correlation_table_invariant [where ops = example_ops and deliveries = "[(None, [])]"
        and request = "\<lparr>subscription = ''q'', max_messages = 1\<rparr>" and timeout = 5]
    by (simp add: history_example)
qed

section \<open>Consumer: the paths through one cycle\<close>

lemmas call_defs = call_pull_def call_loads_def call_model_def call_handle_def call_acknowledge_def
  log_call_def

lemma async_process_one_message_eq: "async_process_one_message = process_one_message"
  by (intro ext) (simp only: async_process_one_message_def process_one_message_def)

lemma async_run_eq: "async_run = run"
proof (intro ext)
  fix fuel and env :: "'w collaborators" and st :: "'w execution"
  show "async_run fuel env st = run fuel env st"
    by (induction fuel arbitrary: st)
       (simp_all add: async_process_one_message_eq split: prod.splits sum.splits)
qed

lemma variants:
  assumes "(pom, loop) \<in> {(process_one_message, run), (async_process_one_message, async_run)}"
  shows "pom = process_one_message" and "loop = run"
  using assms by (auto simp: async_process_one_message_eq async_run_eq)

lemma pom_pull_raises:
  assumes "subscriber_pull env (the_pull_request st) 30 (consumer st) = (Inl e, c1)"
  shows "process_one_message env st
         = (Inl e, st\<lparr>consumer := c1, calls := calls st @ [PullCall (the_pull_request st) 30]\<rparr>)"
  using assms by (simp add: process_one_message_def call_defs the_pull_request_def)

lemma pom_empty:
  assumes "subscriber_pull env (the_pull_request st) 30 (consumer st) = (Inr response, c1)"
    and "received_messages response = []"
  shows "process_one_message env st
         = (Inr (), st\<lparr>consumer := c1, calls := calls st @ [PullCall (the_pull_request st) 30]\<rparr>)"
  using assms by (simp add: process_one_message_def call_defs the_pull_request_def)

lemma pom_loads_raises:
  assumes "subscriber_pull env (the_pull_request st) 30 (consumer st) = (Inr response, c1)"
    and "received_messages response = m # ms"
    and "json_loads env (data (message m)) = Inl e"
  shows "process_one_message env st
         = (Inl e, st\<lparr>consumer := c1,
              calls := calls st @ [PullCall (the_pull_request st) 30, LoadsCall (data (message m))]\<rparr>)"
  using assms by (simp add: process_one_message_def call_defs the_pull_request_def)

lemma pom_model_raises:
  assumes "subscriber_pull env (the_pull_request st) 30 (consumer st) = (Inr response, c1)"
    and "received_messages response = m # ms"
    and "json_loads env (data (message m)) = Inr j"
    and "request_model env j = Inl e"
  shows "process_one_message env st
         = (Inl e, st\<lparr>consumer := c1,
              calls := calls st @ [PullCall (the_pull_request st) 30, LoadsCall (data (message m)),
                                   ModelCall j]\<rparr>)"
  using assms by (simp add: process_one_message_def call_defs the_pull_request_def)

lemma pom_handler_raises:
  assumes "subscriber_pull env (the_pull_request st) 30 (consumer st) = (Inr response, c1)"
    and "received_messages response = m # ms"
    and "json_loads env (data (message m)) = Inr j"
    and "request_model env j = Inr request"
    and "handler_handle env request c1 = (Inl e, c2)"
  shows "process_one_message env st
         = (Inl e, st\<lparr>consumer := c2,
              calls := calls st @ [PullCall (the_pull_request st) 30, LoadsCall (data (message m)),
                                   ModelCall j, HandleCall request]\<rparr>)"
  using assms by (simp add: process_one_message_def call_defs the_pull_request_def)

lemma pom_handled:
  assumes "subscriber_pull env (the_pull_request st) 30 (consumer st) = (Inr response, c1)"
    and "received_messages response = m # ms"
    and "json_loads env (data (message m)) = Inr j"
    and "request_model env j = Inr request"
    and "handler_handle env request c1 = (Inr u, c2)"
    and "subscriber_acknowledge env
           \<lparr>ack_subscription = consumer_subscription c2, ack_ids = [ack_id m]\<rparr> c2 = (r, c3)"
  shows "process_one_message env st
         = (r, st\<lparr>consumer := c3,
              calls := calls st @ [PullCall (the_pull_request st) 30, LoadsCall (data (message m)),
                                   ModelCall j, HandleCall request,
                                   AcknowledgeCall \<lparr>ack_subscription = consumer_subscription c2,
                                                    ack_ids = [ack_id m]\<rparr>]\<rparr>)"
  using assms by (simp add: process_one_message_def call_defs the_pull_request_def)

text \<open>Once a message has been received, the journal of the cycle is about that message.\<close>

lemma pom_calls_after_pull:
  assumes pull_ok: "subscriber_pull env (the_pull_request st) 30 (consumer st) = (Inr response, c1)"
    and msgs: "received_messages response = m # ms"
  shows "\<exists>n j r sub. calls (snd (process_one_message env st))
      = calls st @ PullCall (the_pull_request st) 30 # LoadsCall (data (message m))
          # take n [ModelCall j, HandleCall r,
                    AcknowledgeCall \<lparr>ack_subscription = sub, ack_ids = [ack_id m]\<rparr>]"
proof -
  let ?P = "\<lambda>n j r sub. calls (snd (process_one_message env st))
      = calls st @ PullCall (the_pull_request st) 30 # LoadsCall (data (message m))
          # take n [ModelCall j, HandleCall r,
                    AcknowledgeCall \<lparr>ack_subscription = sub, ack_ids = [ack_id m]\<rparr>]"
  show ?thesis
  proof (cases "json_loads env (data (message m))")
    case (Inl e)
    with pull_ok msgs have "?P 0 undefined undefined undefined"
      by (simp add: pom_loads_raises)
    then show ?thesis by blast
  next
    case loads_ok: (Inr j)
    show ?thesis
    proof (cases "request_model env j")
      case (Inl e)
      with pull_ok msgs loads_ok have "?P 1 j undefined undefined"
        by (simp add: pom_model_raises)
      then show ?thesis by blast
    next
      case model_ok: (Inr request)
      obtain hres c2 where h: "handler_handle env request c1 = (hres, c2)"
        by (cases "handler_handle env request c1")
      show ?thesis
      proof (cases hres)
        case (Inl e)
        with pull_ok msgs loads_ok model_ok h have "?P 2 j request undefined"
          by (simp add: pom_handler_raises)
        then show ?thesis by blast
      next
        case (Inr u)
        obtain r c3 where a: "subscriber_acknowledge env
            \<lparr>ack_subscription = consumer_subscription c2, ack_ids = [ack_id m]\<rparr> c2 = (r, c3)"
          by (cases "subscriber_acknowledge env
            \<lparr>ack_subscription = consumer_subscription c2, ack_ids = [ack_id m]\<rparr> c2")
        from pull_ok msgs loads_ok model_ok h [unfolded Inr] a
        have "?P 3 j request (consumer_subscription c2)"
          by (simp add: pom_handled)
        then show ?thesis by blast
      qed
    qed
  qed
qed

text \<open>Every cycle starts with the pull and then goes some way along the four later calls.\<close>

lemma pom_calls_shape:
  "\<exists>n b j r a. calls (snd (process_one_message env st))
      = calls st @ PullCall (the_pull_request st) 30
          # take n [LoadsCall b, ModelCall j, HandleCall r, AcknowledgeCall a]"
proof -
  obtain res c1 where p: "subscriber_pull env (the_pull_request st) 30 (consumer st) = (res, c1)"
    by (cases "subscriber_pull env (the_pull_request st) 30 (consumer st)")
  let ?P = "\<lambda>n b j r a. calls (snd (process_one_message env st))
      = calls st @ PullCall (the_pull_request st) 30
          # take n [LoadsCall b, ModelCall j, HandleCall r, AcknowledgeCall a]"
  show ?thesis
  proof (cases res)
    case (Inl e)
    with p have "?P 0 undefined undefined undefined undefined"
      by (simp add: pom_pull_raises)
    then show ?thesis by blast
  next
    case (Inr response)
    note pull_ok = p [unfolded Inr]
    show ?thesis
    proof (cases "received_messages response")
      case Nil
      with pull_ok have "?P 0 undefined undefined undefined undefined"
        by (simp add: pom_empty)
      then show ?thesis by blast
    next
      case (Cons m ms)
      from pom_calls_after_pull [OF pull_ok Cons] obtain n j r sub where
        "calls (snd (process_one_message env st))
          = calls st @ PullCall (the_pull_request st) 30 # LoadsCall (data (message m))
              # take n [ModelCall j, HandleCall r,
                        AcknowledgeCall \<lparr>ack_subscription = sub, ack_ids = [ack_id m]\<rparr>]"
        by blast
      then have "?P (Suc n) (data (message m)) j r \<lparr>ack_subscription = sub, ack_ids = [ack_id m]\<rparr>"
        by simp
      then show ?thesis by blast
    qed
  qed
qed

lemma pull_update_calls:
  "call_loads (env\<lparr>subscriber_pull := f\<rparr>) = call_loads env"
  "call_model (env\<lparr>subscriber_pull := f\<rparr>) = call_model env"
  "call_handle (env\<lparr>subscriber_pull := f\<rparr>) = call_handle env"
  "call_acknowledge (env\<lparr>subscriber_pull := f\<rparr>) = call_acknowledge env"
  by (simp_all add: fun_eq_iff call_defs)

lemma first_only_calls:
  "call_loads (first_only env) = call_loads env"
  "call_model (first_only env) = call_model env"
  "call_handle (first_only env) = call_handle env"
  "call_acknowledge (first_only env) = call_acknowledge env"
  by (simp_all add: fun_eq_iff call_defs first_only_def)

lemma first_only_call_pull:
  "call_pull (first_only env) request timeout st =
     (case call_pull env request timeout st of
        (Inl e, st1) \<Rightarrow> (Inl e, st1)
      | (Inr response, st1) \<Rightarrow>
          (Inr (response\<lparr>received_messages := take 1 (received_messages response)\<rparr>), st1))"
  by (simp add: call_pull_def first_only_def split: prod.splits sum.splits)

lemma pom_first_only: "process_one_message (first_only env) st = process_one_message env st"
  unfolding process_one_message_def first_only_calls first_only_call_pull
  by (simp split: prod.splits sum.splits list.splits)

section \<open>Consumer: failures leave the message unacknowledged\<close>

lemmas mock_eval = mock_collaborators_def idle_collaborators_def example_message_def
  second_message_def started_def
  start_def stop_def new_consumer_def the_pull_request_def

text \<open>
  C3. In both variants: when a message has been received and decoding its payload fails,
  or validating the decoded value fails, or the handler raises, \<open>process_one_message\<close>
  returns that very error; the journal of the cycle ends with the failing call, so there
  is no acknowledge call, no second pull and no second attempt at any step. The consumer
  is left as the last collaborator that ran left it. \<open>run\<close> hands the error of a cycle on
  to its caller and stops looping.
\<close>

theorem process_one_propagates_errors:
  assumes "(pom, loop) \<in> {(process_one_message, run), (async_process_one_message, async_run)}"
    and "subscriber_pull env (the_pull_request st) 30 (consumer st) = (Inr response, c1)"
    and "received_messages response = m # ms"
  shows "(json_loads env (data (message m)) = Inl e \<longrightarrow>
            pom env st
            = (Inl e, st\<lparr>consumer := c1,
                 calls := calls st @ [PullCall (the_pull_request st) 30,
                                      LoadsCall (data (message m))]\<rparr>))
       \<and> (json_loads env (data (message m)) = Inr j \<and> request_model env j = Inl e \<longrightarrow>
            pom env st
            = (Inl e, st\<lparr>consumer := c1,
                 calls := calls st @ [PullCall (the_pull_request st) 30,
                                      LoadsCall (data (message m)), ModelCall j]\<rparr>))
       \<and> (json_loads env (data (message m)) = Inr j \<and> request_model env j = Inr request
            \<and> handler_handle env request c1 = (Inl e, c2) \<longrightarrow>
            pom env st
            = (Inl e, st\<lparr>consumer := c2,
                 calls := calls st @ [PullCall (the_pull_request st) 30,
                                      LoadsCall (data (message m)), ModelCall j,
                                      HandleCall request]\<rparr>))
       \<and> (running (consumer st0)
            \<and> pom env (log_call ProcessOneMessage (log_call (WhileTest True) st0)) = (Inl e, st1) \<longrightarrow>
            loop (Suc fuel) env st0 = Some (Inl e, st1))"
proof -
  note v = variants [OF assms(1)]
  show ?thesis
    unfolding v
    using assms(2,3)
    by (simp add: pom_loads_raises pom_model_raises pom_handler_raises)
qed

theorem process_one_propagates_errors_witness:
  "process_one_message
     (mock_collaborators [example_message] (Inl (Exception ''JSONDecodeError'')) (Inr PyNone) (Inr ()))
     (started [])
   = (Inl (Exception ''JSONDecodeError''),
      \<lparr>consumer = new_consumer ''sync-sub'' [],
       calls = [PullCall \<lparr>subscription = ''sync-sub'', max_messages = 1\<rparr> 30, LoadsCall [123, 125]]\<rparr>)
   \<and> async_process_one_message
     (mock_collaborators [example_message] (Inr (PyDict [])) (Inl (Exception ''ValidationError''))
        (Inr ()))
     (started [])
   = (Inl (Exception ''ValidationError''),
      \<lparr>consumer = new_consumer ''sync-sub'' [],
       calls = [PullCall \<lparr>subscription = ''sync-sub'', max_messages = 1\<rparr> 30, LoadsCall [123, 125],
                ModelCall (PyDict [])]\<rparr>)
   \<and> process_one_message
     (mock_collaborators [example_message] (Inr (PyDict [])) (Inr (PyStr ''request''))
        (Inl (Exception ''handler failed'')))
     (started [])
   = (Inl (Exception ''handler failed''),
      \<lparr>consumer = new_consumer ''sync-sub'' [],
       calls = [PullCall \<lparr>subscription = ''sync-sub'', max_messages = 1\<rparr> 30, LoadsCall [123, 125],
                ModelCall (PyDict []), HandleCall (PyStr ''request'')]\<rparr>)
   \<and> run (Suc 0)
     (mock_collaborators [example_message] (Inl (Exception ''JSONDecodeError'')) (Inr PyNone) (Inr ()))
     (started [])
   = Some (Inl (Exception ''JSONDecodeError''),
      \<lparr>consumer = new_consumer ''sync-sub'' [],
       calls = [WhileTest True, ProcessOneMessage,
                PullCall \<lparr>subscription = ''sync-sub'', max_messages = 1\<rparr> 30, LoadsCall [123, 125]]\<rparr>)"
proof -
  let ?decode = "mock_collaborators [example_message] (Inl (Exception ''JSONDecodeError''))
    (Inr PyNone) (Inr ())"
  let ?validate = "mock_collaborators [example_message] (Inr (PyDict []))
    (Inl (Exception ''ValidationError'')) (Inr ())"
  let ?handle = "mock_collaborators [example_message] (Inr (PyDict [])) (Inr (PyStr ''request''))
    (Inl (Exception ''handler failed''))"
  let ?st = "started [] :: string list execution"
  let ?c1 = "new_consumer ''sync-sub'' [] :: string list message_consumer"
  let ?response = "\<lparr>received_messages = [example_message]\<rparr>"
  have sync: "(process_one_message, run)
      \<in> {(process_one_message, run), (async_process_one_message, async_run)}"
    by simp
  have async: "(async_process_one_message, async_run)
      \<in> {(process_one_message, run), (async_process_one_message, async_run)}"
    by simp
  have p1: "subscriber_pull ?decode (the_pull_request ?st) 30 (consumer ?st) = (Inr ?response, ?c1)"
    by (simp add: mock_eval)
  have p2: "subscriber_pull ?validate (the_pull_request ?st) 30 (consumer ?st) = (Inr ?response, ?c1)"
    by (simp add: mock_eval)
  have p3: "subscriber_pull ?handle (the_pull_request ?st) 30 (consumer ?st) = (Inr ?response, ?c1)"
    by (simp add: mock_eval)
  have r: "received_messages ?response = example_message # []"
    by simp
  have cycle: "process_one_message ?decode (log_call ProcessOneMessage (log_call (WhileTest True) ?st))
      = (Inl (Exception ''JSONDecodeError''),
         \<lparr>consumer = ?c1,
          calls = [WhileTest True, ProcessOneMessage,
                   PullCall \<lparr>subscription = ''sync-sub'', max_messages = 1\<rparr> 30,
                   LoadsCall [123, 125]]\<rparr>)"
    by (simp add: process_one_message_def call_defs mock_eval)
  show ?thesis
    using process_one_propagates_errors [OF sync p1 r,
        where e = "Exception ''JSONDecodeError''" and ?st0.0 = ?st and fuel = 0
          and ?st1.0 = "\<lparr>consumer = ?c1,
            calls = [WhileTest True, ProcessOneMessage,
                     PullCall \<lparr>subscription = ''sync-sub'', max_messages = 1\<rparr> 30,
                     LoadsCall [123, 125]]\<rparr>"]
      process_one_propagates_errors [OF async p2 r,
        where e = "Exception ''ValidationError''" and j = "PyDict []"]
      process_one_propagates_errors [OF sync p3 r,
        where e = "Exception ''handler failed''" and j = "PyDict []"
          and request = "PyStr ''request''" and ?c2.0 = ?c1]
      cycle
    by (simp add: mock_eval)
qed

section \<open>Consumer: the successful cycle\<close>

text \<open>
  C4. In both variants, the first call of every cycle is a pull on the consumer's
  subscription with \<open>max_messages = 1\<close> and timeout 30, and the cycle makes no other
  pull. When the pull returns a message, decoding and validation succeed and the handler
  returns, the journal of the cycle is: pull, decode, validate, handle, and then one
  acknowledge whose identifiers are the singleton list of that message's identifier; the
  cycle returns what the acknowledge call returns.
\<close>

theorem process_one_pull_and_ack:
  assumes "pom \<in> {process_one_message, async_process_one_message}"
  shows "(\<exists>rest. calls (snd (pom env st))
            = calls st @ PullCall \<lparr>subscription = consumer_subscription (consumer st),
                                   max_messages = 1\<rparr> 30 # rest
            \<and> (\<forall>request timeout. PullCall request timeout \<notin> set rest))
       \<and> (subscriber_pull env
              \<lparr>subscription = consumer_subscription (consumer st), max_messages = 1\<rparr> 30 (consumer st)
            = (Inr response, c1)
          \<and> received_messages response = m # ms
          \<and> json_loads env (data (message m)) = Inr j
          \<and> request_model env j = Inr request
          \<and> handler_handle env request c1 = (Inr u, c2)
          \<and> subscriber_acknowledge env
               \<lparr>ack_subscription = consumer_subscription c2, ack_ids = [ack_id m]\<rparr> c2 = (r, c3)
          \<longrightarrow> pom env st
            = (r, st\<lparr>consumer := c3,
                 calls := calls st @
                   [PullCall \<lparr>subscription = consumer_subscription (consumer st),
                              max_messages = 1\<rparr> 30,
                    LoadsCall (data (message m)), ModelCall j, HandleCall request,
                    AcknowledgeCall \<lparr>ack_subscription = consumer_subscription c2,
                                     ack_ids = [ack_id m]\<rparr>]\<rparr>))"
proof -
  from assms have pom: "pom = process_one_message"
    by (auto simp: async_process_one_message_eq)
  from pom_calls_shape [of env st] obtain n b j' r' a where shape:
    "calls (snd (process_one_message env st))
      = calls st @ PullCall (the_pull_request st) 30
          # take n [LoadsCall b, ModelCall j', HandleCall r', AcknowledgeCall a]"
    by blast
  have "PullCall request timeout
      \<notin> set (take n [LoadsCall b, ModelCall j', HandleCall r', AcknowledgeCall a])"
    for request timeout
    by (auto dest!: in_set_takeD)
  with shape have first: "\<exists>rest. calls (snd (process_one_message env st))
            = calls st @ PullCall \<lparr>subscription = consumer_subscription (consumer st),
                                   max_messages = 1\<rparr> 30 # rest
            \<and> (\<forall>request timeout. PullCall request timeout \<notin> set rest)"
    unfolding the_pull_request_def by blast
  show ?thesis
    unfolding pom
    using first pom_handled [of env st response c1 m ms j request u c2 r c3]
    by (simp add: the_pull_request_def)
qed

theorem process_one_pull_and_ack_witness:
  "process_one_message
     (mock_collaborators [example_message] (Inr (PyDict [])) (Inr (PyStr ''request'')) (Inr ()))
     (started [])
   = (Inr (),
      \<lparr>consumer = (new_consumer ''sync-sub'' [])\<lparr>world := [''ack-123'']\<rparr>,
       calls = [PullCall \<lparr>subscription = ''sync-sub'', max_messages = 1\<rparr> 30, LoadsCall [123, 125],
                ModelCall (PyDict []), HandleCall (PyStr ''request''),
                AcknowledgeCall \<lparr>ack_subscription = ''sync-sub'', ack_ids = [''ack-123'']\<rparr>]\<rparr>)
   \<and> async_process_one_message
     (mock_collaborators [example_message] (Inr (PyDict [])) (Inr (PyStr ''request'')) (Inr ()))
     (started [])
   = (Inr (),
      \<lparr>consumer = (new_consumer ''sync-sub'' [])\<lparr>world := [''ack-123'']\<rparr>,
       calls = [PullCall \<lparr>subscription = ''sync-sub'', max_messages = 1\<rparr> 30, LoadsCall [123, 125],
                ModelCall (PyDict []), HandleCall (PyStr ''request''),
                AcknowledgeCall \<lparr>ack_subscription = ''sync-sub'', ack_ids = [''ack-123'']\<rparr>]\<rparr>)"
proof -
  let ?env = "mock_collaborators [example_message] (Inr (PyDict [])) (Inr (PyStr ''request''))
    (Inr ())"
  let ?st = "started [] :: string list execution"
  let ?c1 = "new_consumer ''sync-sub'' [] :: string list message_consumer"
  have hyp: "subscriber_pull ?env
              \<lparr>subscription = consumer_subscription (consumer ?st), max_messages = 1\<rparr> 30 (consumer ?st)
            = (Inr \<lparr>received_messages = [example_message]\<rparr>, ?c1)
          \<and> received_messages \<lparr>received_messages = [example_message]\<rparr> = example_message # []
          \<and> json_loads ?env (data (message example_message)) = Inr (PyDict [])
          \<and> request_model ?env (PyDict []) = Inr (PyStr ''request'')
          \<and> handler_handle ?env (PyStr ''request'') ?c1 = (Inr (), ?c1)
          \<and> subscriber_acknowledge ?env
               \<lparr>ack_subscription = consumer_subscription ?c1, ack_ids = [ack_id example_message]\<rparr> ?c1
             = (Inr (), ?c1\<lparr>world := [''ack-123'']\<rparr>)"
    by (simp add: mock_eval)
  have sync: "process_one_message \<in> {process_one_message, async_process_one_message}"
    by simp
  have async: "async_process_one_message \<in> {process_one_message, async_process_one_message}"
    by simp
  from hyp process_one_pull_and_ack [OF sync, where env = ?env and st = ?st and ?c1.0 = ?c1
      and response = "\<lparr>received_messages = [example_message]\<rparr>" and m = example_message and ms = "[]"
      and j = "PyDict []" and request = "PyStr ''request''" and u = "()" and ?c2.0 = ?c1
      and r = "Inr ()" and ?c3.0 = "?c1\<lparr>world := [''ack-123'']\<rparr>"]
  have s: "process_one_message ?env ?st
     = (Inr (), ?st\<lparr>consumer := ?c1\<lparr>world := [''ack-123'']\<rparr>,
          calls := calls ?st @
            [PullCall \<lparr>subscription = consumer_subscription (consumer ?st), max_messages = 1\<rparr> 30,
             LoadsCall (data (message example_message)), ModelCall (PyDict []),
             HandleCall (PyStr ''request''),
             AcknowledgeCall \<lparr>ack_subscription = consumer_subscription ?c1,
                              ack_ids = [ack_id example_message]\<rparr>]\<rparr>)"
    by blast
  from hyp process_one_pull_and_ack [OF async, where env = ?env and st = ?st and ?c1.0 = ?c1
      and response = "\<lparr>received_messages = [example_message]\<rparr>" and m = example_message and ms = "[]"
      and j = "PyDict []" and request = "PyStr ''request''" and u = "()" and ?c2.0 = ?c1
      and r = "Inr ()" and ?c3.0 = "?c1\<lparr>world := [''ack-123'']\<rparr>"]
  have a: "async_process_one_message ?env ?st
     = (Inr (), ?st\<lparr>consumer := ?c1\<lparr>world := [''ack-123'']\<rparr>,
          calls := calls ?st @
            [PullCall \<lparr>subscription = consumer_subscription (consumer ?st), max_messages = 1\<rparr> 30,
             LoadsCall (data (message example_message)), ModelCall (PyDict []),
             HandleCall (PyStr ''request''),
             AcknowledgeCall \<lparr>ack_subscription = consumer_subscription ?c1,
                              ack_ids = [ack_id example_message]\<rparr>]\<rparr>)"
    by blast
  from s a show ?thesis
    by (simp add: mock_eval)
qed

section \<open>Consumer: the idle cycle\<close>

text \<open>
  C5. In both variants, when the pull returns an empty sequence, the cycle returns at
  once and without error: the pull is the only call in its journal, so nothing is decoded,
  the handler is not invoked and nothing is acknowledged, and the consumer is as the pull
  call left it. A running loop then goes on to test its flag again in that state.
\<close>

theorem process_one_idle:
  assumes "(pom, loop) \<in> {(process_one_message, run), (async_process_one_message, async_run)}"
    and "subscriber_pull env (the_pull_request st) 30 (consumer st) = (Inr response, c1)"
    and "received_messages response = []"
  shows "pom env st
         = (Inr (), st\<lparr>consumer := c1, calls := calls st @ [PullCall (the_pull_request st) 30]\<rparr>)
       \<and> (running (consumer st) \<longrightarrow>
            loop (Suc fuel) env st
            = loop fuel env
                (st\<lparr>consumer := c1,
                    calls := calls st @ [WhileTest True, ProcessOneMessage,
                                         PullCall (the_pull_request st) 30]\<rparr>))"
proof -
  note v = variants [OF assms(1)]
  let ?st0 = "log_call ProcessOneMessage (log_call (WhileTest True) st)"
  have "subscriber_pull env (the_pull_request ?st0) 30 (consumer ?st0) = (Inr response, c1)"
    using assms(2) by (simp add: log_call_def the_pull_request_def)
  from pom_empty [OF this assms(3)]
  have "process_one_message env ?st0
        = (Inr (), st\<lparr>consumer := c1,
                       calls := calls st @ [WhileTest True, ProcessOneMessage,
                                            PullCall (the_pull_request st) 30]\<rparr>)"
    by (simp add: log_call_def the_pull_request_def)
  then show ?thesis
    unfolding v using pom_empty [OF assms(2,3)] by simp
qed

theorem process_one_idle_witness:
  "process_one_message idle_collaborators (started 0)
   = (Inr (),
      \<lparr>consumer = \<lparr>consumer_subscription = ''sync-sub'', running = True, world = 1\<rparr>,
       calls = [PullCall \<lparr>subscription = ''sync-sub'', max_messages = 1\<rparr> 30]\<rparr>)
   \<and> running (consumer (started (0::nat)))
   \<and> async_run (Suc (Suc (Suc 0))) idle_collaborators (started 0)
   = Some (Inr (),
      \<lparr>consumer = \<lparr>consumer_subscription = ''sync-sub'', running = False, world = 2\<rparr>,
       calls = [WhileTest True, ProcessOneMessage,
                PullCall \<lparr>subscription = ''sync-sub'', max_messages = 1\<rparr> 30,
                WhileTest True, ProcessOneMessage,
                PullCall \<lparr>subscription = ''sync-sub'', max_messages = 1\<rparr> 30,
                WhileTest False]\<rparr>)"
proof -
  let ?st = "started 0 :: nat execution"
  let ?c1 = "\<lparr>consumer_subscription = ''sync-sub'', running = True, world = 1::nat\<rparr>"
  have sync: "(process_one_message, run)
      \<in> {(process_one_message, run), (async_process_one_message, async_run)}"
    by simp
  have async: "(async_process_one_message, async_run)
      \<in> {(process_one_message, run), (async_process_one_message, async_run)}"
    by simp
  have p: "subscriber_pull idle_collaborators (the_pull_request ?st) 30 (consumer ?st)
           = (Inr \<lparr>received_messages = []\<rparr>, ?c1)"
    by (simp add: mock_eval)
  have r: "received_messages \<lparr>received_messages = []\<rparr> = []"
    by simp
  have rest: "async_run (Suc (Suc 0)) idle_collaborators
      (?st\<lparr>consumer := ?c1,
           calls := calls ?st @ [WhileTest True, ProcessOneMessage,
                                 PullCall (the_pull_request ?st) 30]\<rparr>)
    = Some (Inr (),
      \<lparr>consumer = \<lparr>consumer_subscription = ''sync-sub'', running = False, world = 2\<rparr>,
       calls = [WhileTest True, ProcessOneMessage,
                PullCall \<lparr>subscription = ''sync-sub'', max_messages = 1\<rparr> 30,
                WhileTest True, ProcessOneMessage,
                PullCall \<lparr>subscription = ''sync-sub'', max_messages = 1\<rparr> 30,
                WhileTest False]\<rparr>)"
    by (simp add: async_process_one_message_def call_defs mock_eval)
  show ?thesis
    using process_one_idle [OF sync p r, where fuel = 0]
      process_one_idle [OF async p r, where fuel = "Suc (Suc 0)"] rest
    by (simp add: mock_eval)
qed

section \<open>Consumer: the loop\<close>

lemma run_normal_exit:
  "run fuel env st = Some (Inr u, st') \<Longrightarrow>
   \<exists>k<fuel. \<exists>b. after_iterations process_one_message env k st = Some b
      \<and> \<not> running (consumer b)
      \<and> (\<forall>j<k. \<exists>bj. after_iterations process_one_message env j st = Some bj \<and> running (consumer bj))
      \<and> st' = log_call (WhileTest False) b"
proof (induction fuel arbitrary: st)
  case 0
  then show ?case by simp
next
  case (Suc fuel)
  show ?case
  proof (cases "running (consumer st)")
    case False
    with Suc.prems have "st' = log_call (WhileTest False) st" by simp
    with False have "after_iterations process_one_message env 0 st = Some st
      \<and> \<not> running (consumer st)
      \<and> (\<forall>j<0. \<exists>bj. after_iterations process_one_message env j st = Some bj \<and> running (consumer bj))
      \<and> st' = log_call (WhileTest False) st"
      by simp
    then show ?thesis by blast
  next
    case True
    obtain r st1 where p:
      "process_one_message env (log_call ProcessOneMessage (log_call (WhileTest True) st)) = (r, st1)"
      by (cases "process_one_message env (log_call ProcessOneMessage (log_call (WhileTest True) st))")
    with True Suc.prems obtain v where r: "r = Inr v" and rest: "run fuel env st1 = Some (Inr u, st')"
      by (cases r) auto
    from Suc.IH [OF rest] obtain k b where k: "k < fuel"
      and b: "after_iterations process_one_message env k st1 = Some b"
      and nb: "\<not> running (consumer b)"
      and before: "\<forall>j<k. \<exists>bj. after_iterations process_one_message env j st1 = Some bj
                      \<and> running (consumer bj)"
      and st': "st' = log_call (WhileTest False) b"
      by blast
    have step: "after_iterations process_one_message env (Suc j) st
                = after_iterations process_one_message env j st1" for j
      using p r by simp
    have "\<exists>bj. after_iterations process_one_message env j st = Some bj \<and> running (consumer bj)"
      if "j < Suc k" for j
    proof (cases j)
      case 0
      with True show ?thesis by simp
    next
      case (Suc i)
      with that have "i < k" by simp
      with before Suc step show ?thesis by simp
    qed
    with k b nb st' step [of k] have "Suc k < Suc fuel
      \<and> after_iterations process_one_message env (Suc k) st = Some b
      \<and> \<not> running (consumer b)
      \<and> (\<forall>j<Suc k. \<exists>bj. after_iterations process_one_message env j st = Some bj
            \<and> running (consumer bj))
      \<and> st' = log_call (WhileTest False) b"
      by simp
    then show ?thesis by blast
  qed
qed

lemma run_error_exit:
  "run fuel env st = Some (Inl e, st') \<Longrightarrow>
   \<exists>k<fuel. \<exists>b. after_iterations process_one_message env k st = Some b
      \<and> (\<forall>j\<le>k. \<exists>bj. after_iterations process_one_message env j st = Some bj \<and> running (consumer bj))
      \<and> process_one_message env (log_call ProcessOneMessage (log_call (WhileTest True) b))
          = (Inl e, st')"
proof (induction fuel arbitrary: st)
  case 0
  then show ?case by simp
next
  case (Suc fuel)
  from Suc.prems have True: "running (consumer st)"
    by (cases "running (consumer st)") simp_all
  obtain r st1 where p:
    "process_one_message env (log_call ProcessOneMessage (log_call (WhileTest True) st)) = (r, st1)"
    by (cases "process_one_message env (log_call ProcessOneMessage (log_call (WhileTest True) st))")
  show ?case
  proof (cases r)
    case (Inl e')
    with True p Suc.prems have "e' = e" and "st1 = st'"
      by simp_all
    with True p Inl have "0 < Suc fuel
      \<and> after_iterations process_one_message env 0 st = Some st
      \<and> (\<forall>j\<le>0. \<exists>bj. after_iterations process_one_message env j st = Some bj \<and> running (consumer bj))
      \<and> process_one_message env (log_call ProcessOneMessage (log_call (WhileTest True) st))
          = (Inl e, st')"
      by simp
    then show ?thesis by blast
  next
    case (Inr v)
    with True p Suc.prems have rest: "run fuel env st1 = Some (Inl e, st')"
      by simp
    from Suc.IH [OF rest] obtain k b where k: "k < fuel"
      and b: "after_iterations process_one_message env k st1 = Some b"
      and before: "\<forall>j\<le>k. \<exists>bj. after_iterations process_one_message env j st1 = Some bj
                      \<and> running (consumer bj)"
      and last: "process_one_message env (log_call ProcessOneMessage (log_call (WhileTest True) b))
          = (Inl e, st')"
      by blast
    have step: "after_iterations process_one_message env (Suc j) st
                = after_iterations process_one_message env j st1" for j
      using p Inr by simp
    have "\<exists>bj. after_iterations process_one_message env j st = Some bj \<and> running (consumer bj)"
      if "j \<le> Suc k" for j
    proof (cases j)
      case 0
      with True show ?thesis by simp
    next
      case (Suc i)
      with that have "i \<le> k" by simp
      with before Suc step show ?thesis by simp
    qed
    with k b last step [of k] have "Suc k < Suc fuel
      \<and> after_iterations process_one_message env (Suc k) st = Some b
      \<and> (\<forall>j\<le>Suc k. \<exists>bj. after_iterations process_one_message env j st = Some bj
            \<and> running (consumer bj))
      \<and> process_one_message env (log_call ProcessOneMessage (log_call (WhileTest True) b))
          = (Inl e, st')"
      by simp
    then show ?thesis by blast
  qed
qed

lemma run_returns:
  "after_iterations process_one_message env k st = Some b \<Longrightarrow>
   \<not> running (consumer b) \<Longrightarrow>
   (\<forall>j<k. \<exists>bj. after_iterations process_one_message env j st = Some bj \<and> running (consumer bj)) \<Longrightarrow>
   k < fuel \<Longrightarrow>
   run fuel env st = Some (Inr (), log_call (WhileTest False) b)"
proof (induction k arbitrary: st fuel)
  case 0
  then obtain f where "fuel = Suc f" by (cases fuel) auto
  with 0 show ?case by simp
next
  case (Suc k)
  from Suc.prems(4) obtain f where f: "fuel = Suc f" and kf: "k < f"
    by (cases fuel) auto
  from Suc.prems(3) have run0: "running (consumer st)"
    by fastforce
  obtain r st1 where p:
    "process_one_message env (log_call ProcessOneMessage (log_call (WhileTest True) st)) = (r, st1)"
    by (cases "process_one_message env (log_call ProcessOneMessage (log_call (WhileTest True) st))")
  with Suc.prems(1) obtain v where r: "r = Inr v"
    by (cases r) auto
  have step: "after_iterations process_one_message env (Suc j) st
              = after_iterations process_one_message env j st1" for j
    using p r by simp
  have b1: "after_iterations process_one_message env k st1 = Some b"
    using Suc.prems(1) step by simp
  have before1: "\<forall>j<k. \<exists>bj. after_iterations process_one_message env j st1 = Some bj
                    \<and> running (consumer bj)"
  proof (intro allI impI)
    fix j assume "j < k"
    then have "Suc j < Suc k" by simp
    with Suc.prems(3) step [of j]
    show "\<exists>bj. after_iterations process_one_message env j st1 = Some bj \<and> running (consumer bj)"
      by metis
  qed
  have "run f env st1 = Some (Inr (), log_call (WhileTest False) b)"
    by (rule Suc.IH [OF b1 Suc.prems(2) before1 kf])
  with run0 p r f show ?case by simp
qed

lemma no_marks_in_steps:
  "filter (\<lambda>c. c = ProcessOneMessage)
     (take n [LoadsCall b, ModelCall j, HandleCall r, AcknowledgeCall a]) = []"
  "filter is_WhileTest (take n [LoadsCall b, ModelCall j, HandleCall r, AcknowledgeCall a]) = []"
  by (auto simp: filter_empty_conv dest!: in_set_takeD)

lemma after_iterations_calls:
  "after_iterations process_one_message env k st = Some b \<Longrightarrow>
   \<exists>new. calls b = calls st @ new
     \<and> length (filter (\<lambda>c. c = ProcessOneMessage) new) = k
     \<and> length (filter is_WhileTest new) = k"
proof (induction k arbitrary: st)
  case 0
  then show ?case by simp
next
  case (Suc k)
  let ?st0 = "log_call ProcessOneMessage (log_call (WhileTest True) st)"
  obtain r st1 where p: "process_one_message env ?st0 = (r, st1)"
    by (cases "process_one_message env ?st0")
  with Suc.prems obtain v where r: "r = Inr v"
    and b1: "after_iterations process_one_message env k st1 = Some b"
    by (cases r) auto
  from pom_calls_shape [of env ?st0] p obtain n lb j rq a where
    "calls st1 = calls ?st0 @ PullCall (the_pull_request ?st0) 30
        # take n [LoadsCall lb, ModelCall j, HandleCall rq, AcknowledgeCall a]"
    by auto
  then have c1: "calls st1
      = calls st @ [WhileTest True, ProcessOneMessage, PullCall (the_pull_request ?st0) 30]
        @ take n [LoadsCall lb, ModelCall j, HandleCall rq, AcknowledgeCall a]"
    by (simp add: log_call_def)
  from Suc.IH [OF b1] obtain new where new: "calls b = calls st1 @ new"
    and n1: "length (filter (\<lambda>c. c = ProcessOneMessage) new) = k"
    and n2: "length (filter is_WhileTest new) = k"
    by blast
  let ?new = "[WhileTest True, ProcessOneMessage, PullCall (the_pull_request ?st0) 30]
        @ take n [LoadsCall lb, ModelCall j, HandleCall rq, AcknowledgeCall a] @ new"
  have "calls b = calls st @ ?new"
    using new c1 by simp
  moreover have "length (filter (\<lambda>c. c = ProcessOneMessage) ?new) = Suc k"
    using n1 by (simp add: no_marks_in_steps del: take_Cons_numeral)
  moreover have "length (filter is_WhileTest ?new) = Suc k"
    using n2 by (simp add: no_marks_in_steps del: take_Cons_numeral)
  ultimately show ?case by blast
qed

text \<open>
  C8. In both variants: \<open>run\<close> on a consumer that was constructed and never started
  tests the flag once, finds it false and returns, without a cycle; so does \<open>run\<close> in any
  state whose flag is false. A \<open>run\<close> that returns normally has gone through \<open>k\<close>
  complete cycles, the flag was true at the start of each of them and false at the first
  boundary after them, where it returned; its journal has \<open>k\<close> cycle entries and
  \<open>k + 1\<close> flag tests. Conversely, when the flag is first false after \<open>k\<close> complete
  cycles, \<open>run\<close> returns there, given \<open>k + 1\<close> flag tests or more. A \<open>run\<close> that
  ends with an error has found the flag true before every cycle, the failing one included.
\<close>

theorem run_checks_flag:
  assumes "(pom, loop) \<in> {(process_one_message, run), (async_process_one_message, async_run)}"
  shows "loop (Suc fuel) env \<lparr>consumer = new_consumer sub w, calls = []\<rparr>
         = Some (Inr (), \<lparr>consumer = new_consumer sub w, calls = [WhileTest False]\<rparr>)
       \<and> (\<not> running (consumer st0) \<longrightarrow>
            loop (Suc fuel) env st0 = Some (Inr (), log_call (WhileTest False) st0))
       \<and> (loop n env st = Some (Inr u, st') \<longrightarrow>
            (\<exists>k<n. \<exists>b new.
                after_iterations pom env k st = Some b
              \<and> \<not> running (consumer b)
              \<and> (\<forall>j<k. \<exists>bj. after_iterations pom env j st = Some bj \<and> running (consumer bj))
              \<and> st' = log_call (WhileTest False) b
              \<and> calls st' = calls st @ new
              \<and> length (filter (\<lambda>c. c = ProcessOneMessage) new) = k
              \<and> length (filter is_WhileTest new) = Suc k))
       \<and> (after_iterations pom env k st = Some b
            \<and> \<not> running (consumer b)
            \<and> (\<forall>j<k. \<exists>bj. after_iterations pom env j st = Some bj \<and> running (consumer bj))
            \<and> k < n \<longrightarrow>
            loop n env st = Some (Inr (), log_call (WhileTest False) b))
       \<and> (loop n env st = Some (Inl e, st') \<longrightarrow>
            (\<exists>k<n. \<exists>b.
                after_iterations pom env k st = Some b
              \<and> (\<forall>j\<le>k. \<exists>bj. after_iterations pom env j st = Some bj \<and> running (consumer bj))
              \<and> pom env (log_call ProcessOneMessage (log_call (WhileTest True) b)) = (Inl e, st')))"
proof -
  note v = variants [OF assms]
  have c1: "run (Suc fuel) env \<lparr>consumer = new_consumer sub w, calls = []\<rparr>
         = Some (Inr (), \<lparr>consumer = new_consumer sub w, calls = [WhileTest False]\<rparr>)"
    by (simp add: new_consumer_def log_call_def)
  have c2: "\<not> running (consumer st0) \<longrightarrow>
            run (Suc fuel) env st0 = Some (Inr (), log_call (WhileTest False) st0)"
    by simp
  have c3: "\<exists>k<n. \<exists>b new.
                after_iterations process_one_message env k st = Some b
              \<and> \<not> running (consumer b)
              \<and> (\<forall>j<k. \<exists>bj. after_iterations process_one_message env j st = Some bj
                    \<and> running (consumer bj))
              \<and> st' = log_call (WhileTest False) b
              \<and> calls st' = calls st @ new
              \<and> length (filter (\<lambda>c. c = ProcessOneMessage) new) = k
              \<and> length (filter is_WhileTest new) = Suc k"
    if r: "run n env st = Some (Inr u, st')"
  proof -
    from run_normal_exit [OF r] obtain k b where k: "k < n"
      and b: "after_iterations process_one_message env k st = Some b"
      and nb: "\<not> running (consumer b)"
      and before: "\<forall>j<k. \<exists>bj. after_iterations process_one_message env j st = Some bj
                      \<and> running (consumer bj)"
      and st': "st' = log_call (WhileTest False) b"
      by blast
    from after_iterations_calls [OF b] obtain new where new: "calls b = calls st @ new"
      and n1: "length (filter (\<lambda>c. c = ProcessOneMessage) new) = k"
      and n2: "length (filter is_WhileTest new) = k"
      by blast
    have "calls st' = calls st @ (new @ [WhileTest False])"
      using st' new by (simp add: log_call_def)
    moreover have "length (filter (\<lambda>c. c = ProcessOneMessage) (new @ [WhileTest False])) = k"
      using n1 by simp
    moreover have "length (filter is_WhileTest (new @ [WhileTest False])) = Suc k"
      using n2 by simp
    ultimately show ?thesis
      using k b nb before st' by blast
  qed
  have c4: "after_iterations process_one_message env k st = Some b
            \<and> \<not> running (consumer b)
            \<and> (\<forall>j<k. \<exists>bj. after_iterations process_one_message env j st = Some bj
                  \<and> running (consumer bj))
            \<and> k < n \<longrightarrow>
            run n env st = Some (Inr (), log_call (WhileTest False) b)"
    using run_returns [of env k st b n] by blast
  have c5: "run n env st = Some (Inl e, st') \<longrightarrow>
            (\<exists>k<n. \<exists>b.
                after_iterations process_one_message env k st = Some b
              \<and> (\<forall>j\<le>k. \<exists>bj. after_iterations process_one_message env j st = Some bj
                    \<and> running (consumer bj))
              \<and> process_one_message env (log_call ProcessOneMessage (log_call (WhileTest True) b))
                  = (Inl e, st'))"
    using run_error_exit [of n env st e st'] by blast
  from c1 c2 c3 c4 c5 show ?thesis
    unfolding v by blast
qed

lemma idle_two_cycles:
  "after_iterations process_one_message idle_collaborators 0 (started 0) = Some (started 0)"
  "after_iterations process_one_message idle_collaborators (Suc 0) (started 0)
   = Some \<lparr>consumer = \<lparr>consumer_subscription = ''sync-sub'', running = True, world = 1\<rparr>,
           calls = [WhileTest True, ProcessOneMessage,
                    PullCall \<lparr>subscription = ''sync-sub'', max_messages = 1\<rparr> 30]\<rparr>"
  "after_iterations process_one_message idle_collaborators (Suc (Suc 0)) (started 0)
   = Some \<lparr>consumer = \<lparr>consumer_subscription = ''sync-sub'', running = False, world = 2\<rparr>,
           calls = [WhileTest True, ProcessOneMessage,
                    PullCall \<lparr>subscription = ''sync-sub'', max_messages = 1\<rparr> 30,
                    WhileTest True, ProcessOneMessage,
                    PullCall \<lparr>subscription = ''sync-sub'', max_messages = 1\<rparr> 30]\<rparr>"
  by (simp_all add: process_one_message_def call_defs mock_eval)

theorem run_checks_flag_witness:
  "\<not> running (consumer \<lparr>consumer = new_consumer ''sync-sub'' (0::nat), calls = []\<rparr>)
   \<and> async_run (Suc 0) idle_collaborators \<lparr>consumer = new_consumer ''sync-sub'' 0, calls = []\<rparr>
     = Some (Inr (), \<lparr>consumer = new_consumer ''sync-sub'' 0, calls = [WhileTest False]\<rparr>)
   \<and> run (Suc (Suc (Suc 0))) idle_collaborators (started 0)
     = Some (Inr (),
        log_call (WhileTest False)
          \<lparr>consumer = \<lparr>consumer_subscription = ''sync-sub'', running = False, world = 2\<rparr>,
           calls = [WhileTest True, ProcessOneMessage,
                    PullCall \<lparr>subscription = ''sync-sub'', max_messages = 1\<rparr> 30,
                    WhileTest True, ProcessOneMessage,
                    PullCall \<lparr>subscription = ''sync-sub'', max_messages = 1\<rparr> 30]\<rparr>)
   \<and> (\<exists>k b. k < Suc (Suc (Suc 0))
        \<and> after_iterations process_one_message idle_collaborators k (started 0) = Some b
        \<and> \<not> running (consumer b))
   \<and> run (Suc 0)
       (mock_collaborators [example_message] (Inl (Exception ''JSONDecodeError'')) (Inr PyNone)
          (Inr ()))
       (started [])
     = Some (Inl (Exception ''JSONDecodeError''),
        \<lparr>consumer = new_consumer ''sync-sub'' [],
         calls = [WhileTest True, ProcessOneMessage,
                  PullCall \<lparr>subscription = ''sync-sub'', max_messages = 1\<rparr> 30,
                  LoadsCall [123, 125]]\<rparr>)
   \<and> (\<exists>k b. k < Suc 0
        \<and> after_iterations process_one_message
            (mock_collaborators [example_message] (Inl (Exception ''JSONDecodeError'')) (Inr PyNone)
               (Inr ()))
            k (started []) = Some b)"
proof -
  let ?fresh = "\<lparr>consumer = new_consumer ''sync-sub'' (0::nat), calls = []\<rparr>"
  let ?final = "\<lparr>consumer = \<lparr>consumer_subscription = ''sync-sub'', running = False, world = 2::nat\<rparr>,
         calls = [WhileTest True, ProcessOneMessage,
                  PullCall \<lparr>subscription = ''sync-sub'', max_messages = 1\<rparr> 30,
                  WhileTest True, ProcessOneMessage,
                  PullCall \<lparr>subscription = ''sync-sub'', max_messages = 1\<rparr> 30]\<rparr>"
  let ?decode = "mock_collaborators [example_message] (Inl (Exception ''JSONDecodeError''))
    (Inr PyNone) (Inr ())"
  let ?failed = "\<lparr>consumer = new_consumer ''sync-sub'' ([]::string list),
         calls = [WhileTest True, ProcessOneMessage,
                  PullCall \<lparr>subscription = ''sync-sub'', max_messages = 1\<rparr> 30,
                  LoadsCall [123, 125]]\<rparr>"
  have sync: "(process_one_message, run)
      \<in> {(process_one_message, run), (async_process_one_message, async_run)}"
    by simp
  have async: "(async_process_one_message, async_run)
      \<in> {(process_one_message, run), (async_process_one_message, async_run)}"
    by simp
  note idle = run_checks_flag [OF sync, where env = idle_collaborators and st = "started 0"
      and k = "Suc (Suc 0)" and b = ?final and n = "Suc (Suc (Suc 0))" and u = "()"
      and st' = "log_call (WhileTest False) ?final"]
  note failing = run_checks_flag [OF sync, where env = ?decode and st = "started []"
      and n = "Suc 0" and e = "Exception ''JSONDecodeError''" and st' = ?failed]
  note unstarted = run_checks_flag [OF async, where env = idle_collaborators and ?st0.0 = ?fresh
      and fuel = 0]
  have h2: "\<not> running (consumer ?fresh)"
    by (simp add: new_consumer_def)
  have r0: "running (consumer (started 0 :: nat execution))"
    by (simp add: started_def start_def new_consumer_def)
  have h4: "after_iterations process_one_message idle_collaborators (Suc (Suc 0)) (started 0)
              = Some ?final
            \<and> \<not> running (consumer ?final)
            \<and> (\<forall>j<Suc (Suc 0). \<exists>bj.
                  after_iterations process_one_message idle_collaborators j (started 0) = Some bj
                  \<and> running (consumer bj))
            \<and> Suc (Suc 0) < Suc (Suc (Suc 0))"
    by (simp add: idle_two_cycles All_less_Suc r0 del: after_iterations.simps)
  have ret: "run (Suc (Suc (Suc 0))) idle_collaborators (started 0)
      = Some (Inr (), log_call (WhileTest False) ?final)"
    using idle [THEN conjunct2, THEN conjunct2, THEN conjunct2, THEN conjunct1] h4
    by (rule mp)
  note cycles = idle [THEN conjunct2, THEN conjunct2, THEN conjunct1, THEN mp, OF ret]
  have ex: "\<exists>k b. k < Suc (Suc (Suc 0))
        \<and> after_iterations process_one_message idle_collaborators k (started 0) = Some b
        \<and> \<not> running (consumer b)"
    using cycles by (elim exE conjE) (intro exI conjI, assumption+)
  have h5: "run (Suc 0) ?decode (started []) = Some (Inl (Exception ''JSONDecodeError''), ?failed)"
    by (simp add: process_one_message_def call_defs mock_eval)
  note raised = failing [THEN conjunct2, THEN conjunct2, THEN conjunct2, THEN conjunct2,
      THEN mp, OF h5]
  have err: "\<exists>k b. k < Suc 0
        \<and> after_iterations process_one_message ?decode k (started []) = Some b"
    using raised by (elim exE conjE) (intro exI conjI, assumption+)
  have fresh: "async_run (Suc 0) idle_collaborators ?fresh
      = Some (Inr (), \<lparr>consumer = new_consumer ''sync-sub'' 0, calls = [WhileTest False]\<rparr>)"
    using unstarted [THEN conjunct2, THEN conjunct1, THEN mp, OF h2]
    by (simp add: log_call_def)
  from h2 fresh ret ex h5 err show ?thesis
    by (intro conjI)
qed

section \<open>Consumer: only the first message of a response\<close>

text \<open>
  C10. In both variants, a cycle behaves as if every pull response were cut down to its
  first message: result, consumer and journal are the same. When the pull returns two
  messages or more, the cycle works on the first message and on no other. If decoding the
  first message's payload, validating the decoded value and the handler all succeed, the
  journal of the cycle is exactly: the pull, the decoding of the first payload, its
  validation, the handler call on the validated request, and one acknowledge of the
  singleton list of the first message's identifier; the cycle returns what that
  acknowledge returns and leaves the consumer as the acknowledge left it. If one of the
  three steps fails, the cycle returns that error and its journal ends with the failing
  call on the first message. In every case the journal after the pull starts with the
  decoding of the first payload and goes on at most to one validation, one handler call
  and one acknowledge of the first identifier, and the cycle equals the one in which the
  pull returned the first message alone. So no later message is decoded, validated,
  handled or acknowledged.
\<close>

theorem process_one_first_message_only:
  assumes "pom \<in> {process_one_message, async_process_one_message}"
  shows "pom (first_only env) st = pom env st
       \<and> (subscriber_pull env (the_pull_request st) 30 (consumer st) = (Inr response, c1)
          \<and> received_messages response = m # m' # ms \<longrightarrow>
            (json_loads env (data (message m)) = Inr j \<and> request_model env j = Inr request
               \<and> handler_handle env request c1 = (Inr u, c2)
               \<and> subscriber_acknowledge env
                   \<lparr>ack_subscription = consumer_subscription c2, ack_ids = [ack_id m]\<rparr> c2 = (r, c3) \<longrightarrow>
               pom env st
               = (r, st\<lparr>consumer := c3,
                    calls := calls st @ [PullCall (the_pull_request st) 30,
                                         LoadsCall (data (message m)), ModelCall j,
                                         HandleCall request,
                                         AcknowledgeCall
                                           \<lparr>ack_subscription = consumer_subscription c2,
                                            ack_ids = [ack_id m]\<rparr>]\<rparr>))
            \<and> (json_loads env (data (message m)) = Inl e \<longrightarrow>
               pom env st
               = (Inl e, st\<lparr>consumer := c1,
                    calls := calls st @ [PullCall (the_pull_request st) 30,
                                         LoadsCall (data (message m))]\<rparr>))
            \<and> (json_loads env (data (message m)) = Inr j \<and> request_model env j = Inl e \<longrightarrow>
               pom env st
               = (Inl e, st\<lparr>consumer := c1,
                    calls := calls st @ [PullCall (the_pull_request st) 30,
                                         LoadsCall (data (message m)), ModelCall j]\<rparr>))
            \<and> (json_loads env (data (message m)) = Inr j \<and> request_model env j = Inr request
               \<and> handler_handle env request c1 = (Inl e, c2) \<longrightarrow>
               pom env st
               = (Inl e, st\<lparr>consumer := c2,
                    calls := calls st @ [PullCall (the_pull_request st) 30,
                                         LoadsCall (data (message m)), ModelCall j,
                                         HandleCall request]\<rparr>))
            \<and> (\<exists>n j r sub. calls (snd (pom env st))
               = calls st @ PullCall (the_pull_request st) 30 # LoadsCall (data (message m))
                   # take n [ModelCall j, HandleCall r,
                             AcknowledgeCall \<lparr>ack_subscription = sub, ack_ids = [ack_id m]\<rparr>])
            \<and> pom env st
              = pom (env\<lparr>subscriber_pull :=
                       \<lambda>request timeout c. (Inr \<lparr>received_messages = [m]\<rparr>, c1)\<rparr>) st)"
proof -
  from assms have pom: "pom = process_one_message"
    by (auto simp: async_process_one_message_eq)
  have cut: "process_one_message (first_only env) st = process_one_message env st"
    by (rule pom_first_only)
  have rest: "?thesis"
    if pull_ok: "subscriber_pull env (the_pull_request st) 30 (consumer st) = (Inr response, c1)"
      and msgs: "received_messages response = m # m' # ms"
  proof -
    have handled: "process_one_message env st
        = (r, st\<lparr>consumer := c3,
             calls := calls st @ [PullCall (the_pull_request st) 30,
                                  LoadsCall (data (message m)), ModelCall j,
                                  HandleCall request,
                                  AcknowledgeCall
                                    \<lparr>ack_subscription = consumer_subscription c2,
                                     ack_ids = [ack_id m]\<rparr>]\<rparr>)"
      if "json_loads env (data (message m)) = Inr j" and "request_model env j = Inr request"
        and "handler_handle env request c1 = (Inr u, c2)"
        and "subscriber_acknowledge env
               \<lparr>ack_subscription = consumer_subscription c2, ack_ids = [ack_id m]\<rparr> c2 = (r, c3)"
      using pull_ok msgs that by (rule pom_handled)
    have loads: "process_one_message env st
        = (Inl e, st\<lparr>consumer := c1,
             calls := calls st @ [PullCall (the_pull_request st) 30,
                                  LoadsCall (data (message m))]\<rparr>)"
      if "json_loads env (data (message m)) = Inl e"
      using pull_ok msgs that by (rule pom_loads_raises)
    have model: "process_one_message env st
        = (Inl e, st\<lparr>consumer := c1,
             calls := calls st @ [PullCall (the_pull_request st) 30,
                                  LoadsCall (data (message m)), ModelCall j]\<rparr>)"
      if "json_loads env (data (message m)) = Inr j" and "request_model env j = Inl e"
      using pull_ok msgs that by (rule pom_model_raises)
    have handler: "process_one_message env st
        = (Inl e, st\<lparr>consumer := c2,
             calls := calls st @ [PullCall (the_pull_request st) 30,
                                  LoadsCall (data (message m)), ModelCall j,
                                  HandleCall request]\<rparr>)"
      if "json_loads env (data (message m)) = Inr j" and "request_model env j = Inr request"
        and "handler_handle env request c1 = (Inl e, c2)"
      using pull_ok msgs that by (rule pom_handler_raises)
    have shape: "\<exists>n j r sub. calls (snd (process_one_message env st))
        = calls st @ PullCall (the_pull_request st) 30 # LoadsCall (data (message m))
            # take n [ModelCall j, HandleCall r,
                      AcknowledgeCall \<lparr>ack_subscription = sub, ack_ids = [ack_id m]\<rparr>]"
      using pull_ok msgs by (rule pom_calls_after_pull)
    have same: "process_one_message env st
        = process_one_message (env\<lparr>subscriber_pull :=
                         \<lambda>request timeout c. (Inr \<lparr>received_messages = [m]\<rparr>, c1)\<rparr>) st"
      unfolding process_one_message_def pull_update_calls
      using pull_ok msgs by (simp add: call_pull_def the_pull_request_def)
    show ?thesis
      unfolding pom
      apply (intro conjI impI)
            apply (rule cut)
           apply (elim conjE, erule (3) handled)
          apply (erule loads)
         apply (elim conjE, erule (1) model)
        apply (elim conjE, erule (2) handler)
       apply (rule shape)
      apply (rule same)
      done
  qed
  show ?thesis
  proof (cases "subscriber_pull env (the_pull_request st) 30 (consumer st) = (Inr response, c1)
      \<and> received_messages response = m # m' # ms")
    case True
    then show ?thesis
      using rest by blast
  next
    case False
    then show ?thesis
      unfolding pom using cut by blast
  qed
qed

theorem process_one_first_message_only_witness:
  "process_one_message
     (mock_collaborators [example_message, second_message] (Inr (PyDict []))
        (Inr (PyStr ''request'')) (Inr ()))
     (started [])
   = (Inr (),
      \<lparr>consumer = (new_consumer ''sync-sub'' [])\<lparr>world := [''ack-123'']\<rparr>,
       calls = [PullCall \<lparr>subscription = ''sync-sub'', max_messages = 1\<rparr> 30, LoadsCall [123, 125],
                ModelCall (PyDict []), HandleCall (PyStr ''request''),
                AcknowledgeCall \<lparr>ack_subscription = ''sync-sub'', ack_ids = [''ack-123'']\<rparr>]\<rparr>)
   \<and> async_process_one_message
     (mock_collaborators [example_message, second_message] (Inr (PyDict []))
        (Inr (PyStr ''request'')) (Inr ()))
     (started [])
   = (Inr (),
      \<lparr>consumer = (new_consumer ''sync-sub'' [])\<lparr>world := [''ack-123'']\<rparr>,
       calls = [PullCall \<lparr>subscription = ''sync-sub'', max_messages = 1\<rparr> 30, LoadsCall [123, 125],
                ModelCall (PyDict []), HandleCall (PyStr ''request''),
                AcknowledgeCall \<lparr>ack_subscription = ''sync-sub'', ack_ids = [''ack-123'']\<rparr>]\<rparr>)
   \<and> process_one_message
     (mock_collaborators [example_message, second_message] (Inr (PyDict []))
        (Inl (Exception ''ValidationError'')) (Inr ()))
     (started [])
   = (Inl (Exception ''ValidationError''),
      \<lparr>consumer = new_consumer ''sync-sub'' [],
       calls = [PullCall \<lparr>subscription = ''sync-sub'', max_messages = 1\<rparr> 30, LoadsCall [123, 125],
                ModelCall (PyDict [])]\<rparr>)
   \<and> process_one_message
     (mock_collaborators [example_message, second_message] (Inr (PyDict []))
        (Inr (PyStr ''request'')) (Inr ()))
     (started [])
   = process_one_message
     (mock_collaborators [example_message] (Inr (PyDict [])) (Inr (PyStr ''request'')) (Inr ()))
     (started [])"
proof -
  let ?env = "mock_collaborators [example_message, second_message] (Inr (PyDict []))
    (Inr (PyStr ''request'')) (Inr ())"
  let ?bad = "mock_collaborators [example_message, second_message] (Inr (PyDict []))
    (Inl (Exception ''ValidationError'')) (Inr ())"
  let ?st = "started [] :: string list execution"
  let ?c1 = "new_consumer ''sync-sub'' [] :: string list message_consumer"
  let ?c3 = "(new_consumer ''sync-sub'' [])\<lparr>world := [''ack-123'']\<rparr> :: string list message_consumer"
  let ?response = "\<lparr>received_messages = [example_message, second_message]\<rparr>"
  have sync: "process_one_message \<in> {process_one_message, async_process_one_message}"
    by simp
  have async: "async_process_one_message \<in> {process_one_message, async_process_one_message}"
    by simp
  have pull_ok: "subscriber_pull ?env (the_pull_request ?st) 30 (consumer ?st) = (Inr ?response, ?c1)
      \<and> received_messages ?response = example_message # second_message # []"
    by (simp add: mock_eval)
  have pull_bad: "subscriber_pull ?bad (the_pull_request ?st) 30 (consumer ?st) = (Inr ?response, ?c1)
      \<and> received_messages ?response = example_message # second_message # []"
    by (simp add: mock_eval)
  have steps: "json_loads ?env (data (message example_message)) = Inr (PyDict [])
      \<and> request_model ?env (PyDict []) = Inr (PyStr ''request'')
      \<and> handler_handle ?env (PyStr ''request'') ?c1 = (Inr (), ?c1)
      \<and> subscriber_acknowledge ?env
          \<lparr>ack_subscription = consumer_subscription ?c1, ack_ids = [ack_id example_message]\<rparr> ?c1
        = (Inr (), ?c3)"
    by (simp add: mock_eval)
  have steps_bad: "json_loads ?bad (data (message example_message)) = Inr (PyDict [])
      \<and> request_model ?bad (PyDict []) = Inl (Exception ''ValidationError'')"
    by (simp add: mock_eval)
  note s = process_one_first_message_only [OF sync, where env = ?env and st = ?st
      and response = ?response and ?c1.0 = ?c1 and m = example_message and m' = second_message
      and ms = "[]" and j = "PyDict []" and request = "PyStr ''request''" and u = "()"
      and ?c2.0 = ?c1 and r = "Inr ()" and ?c3.0 = ?c3, THEN conjunct2, THEN mp, OF pull_ok]
  note a = process_one_first_message_only [OF async, where env = ?env and st = ?st
      and response = ?response and ?c1.0 = ?c1 and m = example_message and m' = second_message
      and ms = "[]" and j = "PyDict []" and request = "PyStr ''request''" and u = "()"
      and ?c2.0 = ?c1 and r = "Inr ()" and ?c3.0 = ?c3, THEN conjunct2, THEN mp, OF pull_ok]
  note b = process_one_first_message_only [OF sync, where env = ?bad and st = ?st
      and response = ?response and ?c1.0 = ?c1 and m = example_message and m' = second_message
      and ms = "[]" and j = "PyDict []" and e = "Exception ''ValidationError''",
      THEN conjunct2, THEN mp, OF pull_bad]
  have full_sync: "process_one_message ?env ?st
      = (Inr (), ?st\<lparr>consumer := ?c3,
           calls := calls ?st @ [PullCall (the_pull_request ?st) 30,
                                 LoadsCall (data (message example_message)), ModelCall (PyDict []),
                                 HandleCall (PyStr ''request''),
                                 AcknowledgeCall
                                   \<lparr>ack_subscription = consumer_subscription ?c1,
                                    ack_ids = [ack_id example_message]\<rparr>]\<rparr>)"
    by (rule s [THEN conjunct1, THEN mp, OF steps])
  have full_async: "async_process_one_message ?env ?st
      = (Inr (), ?st\<lparr>consumer := ?c3,
           calls := calls ?st @ [PullCall (the_pull_request ?st) 30,
                                 LoadsCall (data (message example_message)), ModelCall (PyDict []),
                                 HandleCall (PyStr ''request''),
                                 AcknowledgeCall
                                   \<lparr>ack_subscription = consumer_subscription ?c1,
                                    ack_ids = [ack_id example_message]\<rparr>]\<rparr>)"
    by (rule a [THEN conjunct1, THEN mp, OF steps])
  have failed: "process_one_message ?bad ?st
      = (Inl (Exception ''ValidationError''), ?st\<lparr>consumer := ?c1,
           calls := calls ?st @ [PullCall (the_pull_request ?st) 30,
                                 LoadsCall (data (message example_message)),
                                 ModelCall (PyDict [])]\<rparr>)"
    by (rule b [THEN conjunct2, THEN conjunct2, THEN conjunct1, THEN mp, OF steps_bad])
  have alone: "process_one_message ?env ?st
      = process_one_message (?env\<lparr>subscriber_pull :=
          \<lambda>request timeout c. (Inr \<lparr>received_messages = [example_message]\<rparr>, ?c1)\<rparr>) ?st"
    by (rule s [THEN conjunct2, THEN conjunct2, THEN conjunct2, THEN conjunct2, THEN conjunct2])
  have single: "process_one_message (?env\<lparr>subscriber_pull :=
          \<lambda>request timeout c. (Inr \<lparr>received_messages = [example_message]\<rparr>, ?c1)\<rparr>) ?st
      = process_one_message
          (mock_collaborators [example_message] (Inr (PyDict [])) (Inr (PyStr ''request''))
             (Inr ())) ?st"
    by (simp add: process_one_message_def call_defs mock_eval)
  have w1: "process_one_message ?env ?st
      = (Inr (),
         \<lparr>consumer = ?c3,
          calls = [PullCall \<lparr>subscription = ''sync-sub'', max_messages = 1\<rparr> 30, LoadsCall [123, 125],
                   ModelCall (PyDict []), HandleCall (PyStr ''request''),
                   AcknowledgeCall \<lparr>ack_subscription = ''sync-sub'', ack_ids = [''ack-123'']\<rparr>]\<rparr>)"
    unfolding full_sync by (simp add: mock_eval)
  have w2: "async_process_one_message ?env ?st
      = (Inr (),
         \<lparr>consumer = ?c3,
          calls = [PullCall \<lparr>subscription = ''sync-sub'', max_messages = 1\<rparr> 30, LoadsCall [123, 125],
                   ModelCall (PyDict []), HandleCall (PyStr ''request''),
                   AcknowledgeCall \<lparr>ack_subscription = ''sync-sub'', ack_ids = [''ack-123'']\<rparr>]\<rparr>)"
    unfolding full_async by (simp add: mock_eval)
  have w3: "process_one_message ?bad ?st
      = (Inl (Exception ''ValidationError''),
         \<lparr>consumer = ?c1,
          calls = [PullCall \<lparr>subscription = ''sync-sub'', max_messages = 1\<rparr> 30, LoadsCall [123, 125],
                   ModelCall (PyDict [])]\<rparr>)"
    unfolding failed by (simp add: mock_eval)
  have w4: "process_one_message ?env ?st
      = process_one_message
          (mock_collaborators [example_message] (Inr (PyDict [])) (Inr (PyStr ''request''))
             (Inr ())) ?st"
    using alone single by (rule trans)
  from w1 w2 w3 w4 show ?thesis
    by (intro conjI)
qed

end
